theory Spec2Isabelle
  imports Main
begin

section \<open>Python values and text rendering\<close>

text \<open>
  The script \<^verbatim>\<open>get_bridge_logs.py\<close> is Python 3 (it uses f-strings). A \<open>string\<close>
  stands both for a Python \<^verbatim>\<open>bytes\<close> value (one \<open>char\<close> per byte) and for a Python
  \<^verbatim>\<open>str\<close> whose code points are below 256.
\<close>

text \<open>The character of a decimal digit \<open>d < 10\<close>.\<close>

definition digit_char :: "nat \<Rightarrow> char" where
  "digit_char d = ''0123456789'' ! d"

text \<open>Decimal rendering of a natural number, as \<^verbatim>\<open>str(n)\<close> gives it.\<close>

fun str_nat :: "nat \<Rightarrow> string" where
  "str_nat n = (if n < 10 then [digit_char n] else str_nat (n div 10) @ [digit_char (n mod 10)])"

declare str_nat.simps [simp del]

text \<open>The C conversion \<^verbatim>\<open>%0wd\<close>: at least \<open>w\<close> digits, zero-filled on the left.\<close>

definition zero_pad :: "nat \<Rightarrow> nat \<Rightarrow> string" where
  "zero_pad w n = replicate (w - length (str_nat n)) (CHR ''0'') @ str_nat n"

definition str_int :: "int \<Rightarrow> string" where
  "str_int i = (if i < 0 then ''-'' @ str_nat (nat (- i)) else str_nat (nat i))"

definition NL :: char where "NL = CHR 0x0A"
definition CR :: char where "CR = CHR 0x0D"
definition TAB :: char where "TAB = CHR 0x09"
definition BS :: char where "BS = CHR 0x08"
definition BACKSLASH :: char where "BACKSLASH = CHR 0x5C"
definition SQUOTE :: char where "SQUOTE = CHR 0x27"
definition DQUOTE :: char where "DQUOTE = CHR 0x22"

definition hex_digit :: "nat \<Rightarrow> char" where
  "hex_digit d = ''0123456789abcdef'' ! d"

definition hex_escape :: "char \<Rightarrow> string" where
  "hex_escape c =
     [BACKSLASH, CHR ''x'', hex_digit (of_char c div 16), hex_digit (of_char c mod 16)]"

text \<open>The quote Python chooses for a repr: double quotes only when the text holds a
  single quote and no double quote.\<close>

definition repr_quote :: "string \<Rightarrow> char" where
  "repr_quote s = (if SQUOTE \<in> set s \<and> DQUOTE \<notin> set s then DQUOTE else SQUOTE)"

text \<open>One byte of \<^verbatim>\<open>repr(bytes)\<close>, which is also \<^verbatim>\<open>str(bytes)\<close>.\<close>

definition bytes_escape :: "char \<Rightarrow> char \<Rightarrow> string" where
  "bytes_escape q c =
     (if c = q \<or> c = BACKSLASH then [BACKSLASH, c]
      else if c = TAB then [BACKSLASH, CHR ''t'']
      else if c = NL then [BACKSLASH, CHR ''n'']
      else if c = CR then [BACKSLASH, CHR ''r'']
      else if (of_char c :: nat) < 32 \<or> (127 :: nat) \<le> of_char c then hex_escape c
      else [c])"

definition bytes_repr :: "string \<Rightarrow> string" where
  "bytes_repr s =
     (let q = repr_quote s in ''b'' @ [q] @ concat (map (bytes_escape q) s) @ [q])"

text \<open>One character of \<^verbatim>\<open>repr(str)\<close>, for code points below 256: of those above 126 the
  controls, the no-break space and the soft hyphen are escaped.\<close>

definition str_escape :: "char \<Rightarrow> char \<Rightarrow> string" where
  "str_escape q c =
     (if c = q \<or> c = BACKSLASH then [BACKSLASH, c]
      else if c = TAB then [BACKSLASH, CHR ''t'']
      else if c = NL then [BACKSLASH, CHR ''n'']
      else if c = CR then [BACKSLASH, CHR ''r'']
      else if (of_char c :: nat) < 32 \<or> (of_char c :: nat) = 127 then hex_escape c
      else if (of_char c :: nat) < 127 then [c]
      else if (of_char c :: nat) \<le> 160 \<or> (of_char c :: nat) = 173 then hex_escape c
      else [c])"

definition str_repr :: "string \<Rightarrow> string" where
  "str_repr s = (let q = repr_quote s in [q] @ concat (map (str_escape q) s) @ [q])"

text \<open>
  The values a decoded JSON document is made of. A dictionary is the list of its items in
  insertion order. JSON numbers with a fraction are left out.
\<close>

datatype pyval =
    PNone
  | PBool bool
  | PInt int
  | PStr string
  | PList "pyval list"
  | PDict "(pyval \<times> pyval) list"

datatype exn =
    IndexError
  | KeyError
  | TypeError
  | ValueError
  | AttributeError
  | OSError
  | RequestException
  | SystemExit int

fun join_with :: "string \<Rightarrow> string list \<Rightarrow> string" where
  "join_with sep [] = []"
| "join_with sep [x] = x"
| "join_with sep (x # y # ys) = x @ sep @ join_with sep (y # ys)"

fun py_repr :: "pyval \<Rightarrow> string" where
  "py_repr PNone = ''None''"
| "py_repr (PBool b) = (if b then ''True'' else ''False'')"
| "py_repr (PInt i) = str_int i"
| "py_repr (PStr s) = str_repr s"
| "py_repr (PList xs) = ''['' @ join_with '', '' (map py_repr xs) @ '']''"
| "py_repr (PDict kvs) =
     ''{'' @ join_with '', '' (map (\<lambda>kv. py_repr (fst kv) @ '': '' @ py_repr (snd kv)) kvs) @ ''}''"

text \<open>\<^verbatim>\<open>str(v)\<close>, which \<^verbatim>\<open>'{0}'.format(v)\<close> and \<^verbatim>\<open>f'{v}'\<close> insert.\<close>

definition py_str :: "pyval \<Rightarrow> string" where
  "py_str v = (case v of PStr s \<Rightarrow> s | _ \<Rightarrow> py_repr v)"

text \<open>Dictionary keys: \<^verbatim>\<open>True\<close> and \<^verbatim>\<open>1\<close> are the same key, lists and dictionaries
  cannot be keys.\<close>

fun key_norm :: "pyval \<Rightarrow> pyval" where
  "key_norm (PBool b) = PInt (if b then 1 else 0)"
| "key_norm v = v"

definition hashable :: "pyval \<Rightarrow> bool" where
  "hashable v = (case v of PList _ \<Rightarrow> False | PDict _ \<Rightarrow> False | _ \<Rightarrow> True)"

fun dict_get :: "(pyval \<times> pyval) list \<Rightarrow> pyval \<Rightarrow> pyval option" where
  "dict_get [] k = None"
| "dict_get ((k', v) # d) k = (if key_norm k' = key_norm k then Some v else dict_get d k)"

fun dict_set :: "(pyval \<times> pyval) list \<Rightarrow> pyval \<Rightarrow> pyval \<Rightarrow> (pyval \<times> pyval) list" where
  "dict_set [] k v = [(k, v)]"
| "dict_set ((k', v') # d) k v =
     (if key_norm k' = key_norm k then (k', v) # d else (k', v') # dict_set d k v)"

text \<open>\<^verbatim>\<open>xs[i]\<close> on a sequence: a negative index counts from the end.\<close>

definition list_index :: "'a list \<Rightarrow> int \<Rightarrow> exn + 'a" where
  "list_index xs i =
     (let n = int (length xs); j = (if i < 0 then i + n else i)
      in if 0 \<le> j \<and> j < n then Inr (xs ! nat j) else Inl IndexError)"

fun as_index :: "pyval \<Rightarrow> int option" where
  "as_index (PInt i) = Some i"
| "as_index (PBool b) = Some (if b then 1 else 0)"
| "as_index _ = None"

text \<open>\<^verbatim>\<open>obj[k]\<close>\<close>

definition py_getitem :: "pyval \<Rightarrow> pyval \<Rightarrow> exn + pyval" where
  "py_getitem obj k =
     (case obj of
        PDict d \<Rightarrow>
          (if \<not> hashable k then Inl TypeError
           else case dict_get d k of None \<Rightarrow> Inl KeyError | Some v \<Rightarrow> Inr v)
      | PList xs \<Rightarrow>
          (case as_index k of None \<Rightarrow> Inl TypeError | Some i \<Rightarrow> list_index xs i)
      | PStr s \<Rightarrow>
          (case as_index k of None \<Rightarrow> Inl TypeError
           | Some i \<Rightarrow> (case list_index s i of Inl e \<Rightarrow> Inl e | Inr c \<Rightarrow> Inr (PStr [c])))
      | _ \<Rightarrow> Inl TypeError)"

text \<open>\<^verbatim>\<open>obj[k1][k2]...\<close>\<close>

fun py_getitems :: "pyval \<Rightarrow> pyval list \<Rightarrow> exn + pyval" where
  "py_getitems v [] = Inr v"
| "py_getitems v (k # ks) =
     (case py_getitem v k of Inl e \<Rightarrow> Inl e | Inr u \<Rightarrow> py_getitems u ks)"

text \<open>\<^verbatim>\<open>dict(x)\<close>: a copy of a dictionary, or a dictionary built from an iterable whose
  elements are sequences of two items each.\<close>

definition pair_of :: "pyval \<Rightarrow> exn + (pyval \<times> pyval)" where
  "pair_of e =
     (case e of
        PList [k, v] \<Rightarrow> (if hashable k then Inr (k, v) else Inl TypeError)
      | PList _ \<Rightarrow> Inl ValueError
      | PStr [a, b] \<Rightarrow> Inr (PStr [a], PStr [b])
      | PStr _ \<Rightarrow> Inl ValueError
      | PDict [kv1, kv2] \<Rightarrow> Inr (fst kv1, fst kv2)
      | PDict _ \<Rightarrow> Inl ValueError
      | _ \<Rightarrow> Inl TypeError)"

fun dict_update_seq :: "(pyval \<times> pyval) list \<Rightarrow> pyval list \<Rightarrow> exn + (pyval \<times> pyval) list" where
  "dict_update_seq d [] = Inr d"
| "dict_update_seq d (e # es) =
     (case pair_of e of Inl x \<Rightarrow> Inl x | Inr kv \<Rightarrow> dict_update_seq (dict_set d (fst kv) (snd kv)) es)"

definition py_dict :: "pyval \<Rightarrow> exn + (pyval \<times> pyval) list" where
  "py_dict x =
     (case x of
        PDict d \<Rightarrow> Inr (fold (\<lambda>kv acc. dict_set acc (fst kv) (snd kv)) d [])
      | PList es \<Rightarrow> dict_update_seq [] es
      | PStr s \<Rightarrow> dict_update_seq [] (map (\<lambda>c. PStr [c]) s)
      | _ \<Rightarrow> Inl TypeError)"

section \<open>Timestamp encoding\<close>

text \<open>
  A \<^verbatim>\<open>datetime.datetime\<close> value. Python accepts the fields in the ranges of
  \<open>valid_datetime\<close> only.
\<close>

record datetime =
  year :: nat
  month :: nat
  day :: nat
  hour :: nat
  minute :: nat
  second :: nat
  microsecond :: nat




text \<open>
  \<^verbatim>\<open>dt.strftime('%Y%m%d%H%M%S.%f')\<close>: the year as four digits (the documented form
  \<^verbatim>\<open>0001 .. 9999\<close>), month, day, hour, minute and second as two digits each, a dot, and
  the microsecond as six digits.
\<close>

definition strftime_een :: "datetime \<Rightarrow> string" where
  "strftime_een dt =
     zero_pad 4 (year dt) @ zero_pad 2 (month dt) @ zero_pad 2 (day dt) @
     zero_pad 2 (hour dt) @ zero_pad 2 (minute dt) @ zero_pad 2 (second dt) @
     ''.'' @ zero_pad 6 (microsecond dt)"

text \<open>\<^verbatim>\<open>return dt.strftime('%Y%m%d%H%M%S.%f')[:18]\<close>\<close>

definition convert_dt_to_een_time :: "datetime \<Rightarrow> string" where
  "convert_dt_to_een_time dt = take 18 (strftime_een dt)"

section \<open>The local file system\<close>

text \<open>
  A POSIX file system without symbolic links, permissions or size limits: the set of
  directories and the contents of the regular files, both under absolute paths given as
  lists of names, and the working directory of the process.
\<close>

type_synonym path = "string list"

record filesystem =
  cwd :: path
  dirs :: "path set"
  files :: "path \<rightharpoonup> string"

text \<open>\<^verbatim>\<open>p.split('/')\<close>\<close>

fun split_path :: "string \<Rightarrow> string list" where
  "split_path [] = [[]]"
| "split_path (c # cs) =
     (if c = CHR ''/'' then [] # split_path cs
      else (case split_path cs of [] \<Rightarrow> [[c]] | w # ws \<Rightarrow> (c # w) # ws))"

text \<open>Path lookup from directory \<open>cur\<close>: every directory stepped through must exist; the
  place reached need not.\<close>

fun walk :: "path set \<Rightarrow> path \<Rightarrow> string list \<Rightarrow> path option" where
  "walk D cur [] = Some cur"
| "walk D cur (c # cs) =
     (if cur \<notin> D then None
      else if c = [] \<or> c = ''.'' then walk D cur cs
      else if c = ''..'' then walk D (butlast cur) cs
      else walk D (cur @ [c]) cs)"

definition lookup_path :: "filesystem \<Rightarrow> string \<Rightarrow> path option" where
  "lookup_path fsys p =
     (if p = [] \<or> CHR 0x00 \<in> set p then None
      else walk (dirs fsys) (if hd p = CHR ''/'' then [] else cwd fsys) (split_path p))"

definition os_path_exists :: "filesystem \<Rightarrow> string \<Rightarrow> bool" where
  "os_path_exists fsys p =
     (case lookup_path fsys p of
        None \<Rightarrow> False
      | Some loc \<Rightarrow> loc \<in> dirs fsys \<or> loc \<in> dom (files fsys))"

definition os_mkdir :: "string \<Rightarrow> filesystem \<Rightarrow> exn + filesystem" where
  "os_mkdir p fsys =
     (if CHR 0x00 \<in> set p then Inl ValueError
      else case lookup_path fsys p of
        None \<Rightarrow> Inl OSError
      | Some loc \<Rightarrow>
          (if loc \<in> dirs fsys \<or> loc \<in> dom (files fsys) then Inl OSError
           else Inr (fsys\<lparr>dirs := insert loc (dirs fsys)\<rparr>)))"

text \<open>\<^verbatim>\<open>open(p, "w")\<close>: the place of the file, which is created or emptied.\<close>

definition open_w :: "string \<Rightarrow> filesystem \<Rightarrow> exn + (path \<times> filesystem)" where
  "open_w p fsys =
     (if CHR 0x00 \<in> set p then Inl ValueError
      else case lookup_path fsys p of
        None \<Rightarrow> Inl OSError
      | Some loc \<Rightarrow>
          (if loc \<in> dirs fsys then Inl OSError
           else Inr (loc, fsys\<lparr>files := (files fsys)(loc \<mapsto> [])\<rparr>)))"

text \<open>\<^verbatim>\<open>os.path.dirname\<close> and \<^verbatim>\<open>os.path.join\<close> of \<^verbatim>\<open>posixpath\<close>.\<close>

definition os_path_dirname :: "string \<Rightarrow> string" where
  "os_path_dirname p =
     (let head = rev (dropWhile (\<lambda>c. c \<noteq> CHR ''/'') (rev p))
      in if head \<noteq> [] \<and> \<not> list_all (\<lambda>c. c = CHR ''/'') head
         then rev (dropWhile (\<lambda>c. c = CHR ''/'') (rev head)) else head)"

definition posix_join :: "string \<Rightarrow> string \<Rightarrow> string" where
  "posix_join a b =
     (if b \<noteq> [] \<and> hd b = CHR ''/'' then b
      else if a = [] \<or> last a = CHR ''/'' then a @ b
      else a @ ''/'' @ b)"

definition os_path_join :: "string \<Rightarrow> pyval \<Rightarrow> exn + string" where
  "os_path_join a b = (case b of PStr s \<Rightarrow> Inr (posix_join a s) | _ \<Rightarrow> Inl TypeError)"

section \<open>The network, the process and its objects\<close>

record request =
  via_session :: bool
  url :: string
  params :: "(string \<times> pyval) list"
  cookies :: "(string \<times> string) list"
  stream :: bool
  timeout :: "nat option"

text \<open>A response: \<open>json\<close> is what \<^verbatim>\<open>response.json()\<close> returns (\<open>None\<close> when the body is
  not JSON and the call raises), \<open>iter_lines\<close> the lines \<^verbatim>\<open>response.iter_lines()\<close> yields.\<close>

record response =
  status_code :: int
  content :: string
  json :: "pyval option"
  iter_lines :: "string list"

text \<open>\<^verbatim>\<open>response.ok\<close>: \<^verbatim>\<open>raise_for_status\<close> raises for the codes 400 to 599.\<close>

definition response_ok :: "response \<Rightarrow> bool" where
  "response_ok r = (\<not> (400 \<le> status_code r \<and> status_code r < 600))"

text \<open>
  What the program does not decide: the answer of the network to a request (or the
  exception the request raises), \<^verbatim>\<open>__file__\<close>, the text \<^verbatim>\<open>'{0:0.2f}'\<close> of the seconds a
  category took, and the text of an exception.
\<close>

record env =
  net :: "request \<Rightarrow> exn + response"
  script_file :: string
  elapsed :: "string \<Rightarrow> string"
  exn_text :: "exn \<Rightarrow> string"

text \<open>The dataclass \<^verbatim>\<open>DeviceInfo\<close>. An attribute that was never assigned is \<open>None\<close>.\<close>

record DeviceInfo =
  esn :: "pyval option"
  type :: "pyval option"
  name :: "pyval option"
  cluster :: "pyval option"
  disk_ips :: "pyval option"
  archivers :: "pyval option"
  archiver_states :: "pyval option"

text \<open>\<^verbatim>\<open>get_device_info\<close> returns the class object \<^verbatim>\<open>DeviceInfo\<close> itself.\<close>

datatype pyobj = DeviceInfo_class_object

text \<open>The state of the process: the file system, what was written to standard output (one
  entry per write), the requests sent, and the attributes of the class \<^verbatim>\<open>DeviceInfo\<close>.\<close>

record world =
  fs :: filesystem
  stdout :: "string list"
  net_log :: "request list"
  DeviceInfo_class :: DeviceInfo

datatype session = Session (closed: bool)

record ArchiverBridgeLogRetriever =
  auth_base_url :: string
  auth_key :: string
  token :: string
  user_data :: pyval
  username :: string
  authent_url :: string
  author_url :: string
  base_url :: string
  session :: session

definition sys_stdout_write :: "string \<Rightarrow> world \<Rightarrow> world" where
  "sys_stdout_write s w = w\<lparr>stdout := stdout w @ [s]\<rparr>"

definition py_print :: "string \<Rightarrow> world \<Rightarrow> world" where
  "py_print s w = sys_stdout_write (s @ [NL]) w"

definition auth_cookies :: "ArchiverBridgeLogRetriever \<Rightarrow> (string \<times> string) list" where
  "auth_cookies self = [(''auth_key'', auth_key self), (''vbsadmin_sessionid'', auth_key self)]"

text \<open>\<^verbatim>\<open>except Exception\<close> catches every exception of the model but \<^verbatim>\<open>SystemExit\<close>.\<close>

definition is_Exception :: "exn \<Rightarrow> bool" where
  "is_Exception e = (case e of SystemExit _ \<Rightarrow> False | _ \<Rightarrow> True)"

section \<open>Device resolution: \<^verbatim>\<open>get_device_info\<close>\<close>

definition device_info_url :: "string \<Rightarrow> string" where
  "device_info_url e = ''https://nexus.aus1hub1.eencloud.com/api/v2/EsnDetails/'' @ e"

definition device_info_request :: "ArchiverBridgeLogRetriever \<Rightarrow> string \<Rightarrow> request" where
  "device_info_request self e =
     \<lparr>via_session = True, url = device_info_url e, params = [],
      cookies = auth_cookies self, stream = False, timeout = None\<rparr>"

definition set_di :: "(DeviceInfo \<Rightarrow> DeviceInfo) \<Rightarrow> world \<Rightarrow> world" where
  "set_di f w = w\<lparr>DeviceInfo_class := f (DeviceInfo_class w)\<rparr>"

text \<open>
  \<^verbatim>\<open>for a in di.archivers: a_states.update({a: json_result['states'][a]['state']})\<close>
\<close>

fun build_states ::
  "pyval \<Rightarrow> pyval list \<Rightarrow> (pyval \<times> pyval) list \<Rightarrow> exn + (pyval \<times> pyval) list" where
  "build_states json_result [] a_states = Inr a_states"
| "build_states json_result (a # rest) a_states =
     (case py_getitems json_result [PStr ''states'', a, PStr ''state''] of
        Inl e \<Rightarrow> Inl e
      | Inr st \<Rightarrow> build_states json_result rest (dict_set a_states a st))"

text \<open>Statements run in order until one raises; \<open>Some x\<close> is the exception raised.\<close>

fun run_steps :: "(world \<Rightarrow> exn option \<times> world) list \<Rightarrow> world \<Rightarrow> exn option \<times> world" where
  "run_steps [] w = (None, w)"
| "run_steps (step # steps) w =
     (case step w of (Some x, w') \<Rightarrow> (Some x, w') | (None, w') \<Rightarrow> run_steps steps w')"

text \<open>\<^verbatim>\<open>di.attr = json_result[key]\<close>, where \<^verbatim>\<open>di = DeviceInfo\<close> is the class: the
  assignment sets an attribute of the class.\<close>

definition assign_item ::
  "pyval \<Rightarrow> string \<Rightarrow> (pyval \<Rightarrow> DeviceInfo \<Rightarrow> DeviceInfo) \<Rightarrow> world \<Rightarrow> exn option \<times> world" where
  "assign_item json_result key setter w =
     (case py_getitem json_result (PStr key) of
        Inl x \<Rightarrow> (Some x, w)
      | Inr v \<Rightarrow> (None, set_di (setter v) w))"

text \<open>\<^verbatim>\<open>for k in dict(json_result['disks_ips']).keys(): a_list.append(k)\<close> and
  \<^verbatim>\<open>di.archivers = a_list\<close>\<close>

definition assign_archivers :: "pyval \<Rightarrow> world \<Rightarrow> exn option \<times> world" where
  "assign_archivers json_result w =
     (case py_getitem json_result (PStr ''disks_ips'') of
        Inl x \<Rightarrow> (Some x, w)
      | Inr v \<Rightarrow>
          (case py_dict v of
             Inl x \<Rightarrow> (Some x, w)
           | Inr disks \<Rightarrow> (None, set_di (\<lambda>d. d\<lparr>archivers := Some (PList (map fst disks))\<rparr>) w)))"

text \<open>The loop over \<^verbatim>\<open>di.archivers\<close> and \<^verbatim>\<open>di.archiver_states = a_states\<close>. The
  attribute read is the list the statement before has assigned, so only the branch of a
  list is ever taken.\<close>

definition assign_archiver_states :: "pyval \<Rightarrow> world \<Rightarrow> exn option \<times> world" where
  "assign_archiver_states json_result w =
     (case archivers (DeviceInfo_class w) of
        None \<Rightarrow> (Some AttributeError, w)
      | Some (PList a_list) \<Rightarrow>
          (case build_states json_result a_list [] of
             Inl x \<Rightarrow> (Some x, w)
           | Inr a_states \<Rightarrow> (None, set_di (\<lambda>d. d\<lparr>archiver_states := Some (PDict a_states)\<rparr>) w))
      | Some other \<Rightarrow> (Some TypeError, w))"

text \<open>The \<^verbatim>\<open>else\<close> branch of \<^verbatim>\<open>get_device_info\<close> (the response is ok). The assignments
  made before an exception stay.\<close>

definition read_device_info :: "response \<Rightarrow> world \<Rightarrow> (exn + pyobj) \<times> world" where
  "read_device_info r w =
     (case json r of
        None \<Rightarrow> (Inl ValueError, w)
      | Some json_response \<Rightarrow>
          (case py_getitems json_response [PStr ''data'', PInt 0] of
             Inl x \<Rightarrow> (Inl x, w)
           | Inr json_result \<Rightarrow>
               (case run_steps
                  [assign_item json_result ''esn'' (\<lambda>v d. d\<lparr>esn := Some v\<rparr>),
                   assign_item json_result ''type'' (\<lambda>v d. d\<lparr>type := Some v\<rparr>),
                   assign_item json_result ''name'' (\<lambda>v d. d\<lparr>name := Some v\<rparr>),
                   assign_item json_result ''cluster'' (\<lambda>v d. d\<lparr>cluster := Some v\<rparr>),
                   assign_item json_result ''disks_ips'' (\<lambda>v d. d\<lparr>disk_ips := Some v\<rparr>),
                   assign_archivers json_result,
                   assign_archiver_states json_result] w of
                  (Some x, w') \<Rightarrow> (Inl x, w')
                | (None, w') \<Rightarrow> (Inr DeviceInfo_class_object, w'))))"

text \<open>The body of the \<^verbatim>\<open>try\<close> block.\<close>

definition device_info_try ::
  "ArchiverBridgeLogRetriever \<Rightarrow> string \<Rightarrow> env \<Rightarrow> world \<Rightarrow> (exn + pyobj) \<times> world" where
  "device_info_try self e E w =
     (let w = w\<lparr>net_log := net_log w @ [device_info_request self e]\<rparr> in
      (case net E (device_info_request self e) of
         Inl x \<Rightarrow> (Inl x, w)
       | Inr response \<Rightarrow>
           (let w = py_print (bytes_repr (content response)) w in
            if \<not> response_ok response then
              (let w = py_print (''Unable to retrieve device info. Response: '' @
                                str_int (status_code response)) w;
                   w = (if status_code response = 403
                        then py_print
                          ''Unauthorized. Please ensure you are connected to the EagleEye VPN.'' w
                        else w)
               in (Inl (SystemExit 1), w))
            else read_device_info response w)))"

text \<open>The handlers \<^verbatim>\<open>except IndexError\<close> and \<^verbatim>\<open>except Exception as e\<close>.\<close>

definition device_info_except ::
  "string \<Rightarrow> env \<Rightarrow> (exn + pyobj) \<times> world \<Rightarrow> (exn + pyobj) \<times> world" where
  "device_info_except e E rw =
     (case fst rw of
        Inr di \<Rightarrow> rw
      | Inl x \<Rightarrow>
          (if x = IndexError then
             (Inl (SystemExit 1), py_print ''Invalid result. Check ESN.'' (snd rw))
           else if is_Exception x then
             (Inl (SystemExit 1),
              py_print (''Exception raised when attempting to connect to '' @ device_info_url e @
                        [NL] @ ''Exception: '' @ exn_text E x) (snd rw))
           else rw))"

text \<open>\<^verbatim>\<open>with self.session as s\<close> closes the session on every way out.\<close>

definition get_device_info ::
  "ArchiverBridgeLogRetriever \<Rightarrow> string \<Rightarrow> env \<Rightarrow> world \<Rightarrow>
     (exn + pyobj) \<times> ArchiverBridgeLogRetriever \<times> world" where
  "get_device_info self e E w =
     (let w = py_print (NL # ''Requesting data from: '' @ device_info_url e) w;
          rw = device_info_except e E (device_info_try self e E w)
      in (fst rw, self\<lparr>session := Session True\<rparr>, snd rw))"

section \<open>Output directories: \<^verbatim>\<open>create_dirs\<close>\<close>

text \<open>A function object is true: \<^verbatim>\<open>os.path.exists\<close>, written without a call, as the
  condition \<^verbatim>\<open>if not os.path.exists:\<close> has it.\<close>

definition os_path_exists_function_truth :: bool where
  "os_path_exists_function_truth = True"

definition create_dirs_try :: "pyval \<Rightarrow> env \<Rightarrow> filesystem \<Rightarrow> exn option \<times> filesystem" where
  "create_dirs_try bridge_esn E fsys =
     (let script_dir = os_path_dirname (script_file E);
          bridge_logs_root_dir = posix_join script_dir ''bridge_logs''
      in (case os_path_join bridge_logs_root_dir bridge_esn of
            Inl x \<Rightarrow> (Some x, fsys)
          | Inr bridge_esn_dir \<Rightarrow>
              (case (if \<not> os_path_exists fsys bridge_logs_root_dir
                     then os_mkdir bridge_logs_root_dir fsys else Inr fsys) of
                 Inl x \<Rightarrow> (Some x, fsys)
               | Inr fsys1 \<Rightarrow>
                   (case (if \<not> os_path_exists_function_truth
                          then os_mkdir bridge_esn_dir fsys1 else Inr fsys1) of
                      Inl x \<Rightarrow> (Some x, fsys1)
                    | Inr fsys2 \<Rightarrow> (None, fsys2)))))"

definition create_dirs :: "ArchiverBridgeLogRetriever \<Rightarrow> pyval \<Rightarrow> env \<Rightarrow> world \<Rightarrow> world" where
  "create_dirs self bridge_esn E w =
     (case create_dirs_try bridge_esn E (fs w) of
        (None, fsys) \<Rightarrow> w\<lparr>fs := fsys\<rparr>
      | (Some x, fsys) \<Rightarrow>
          py_print (''Error. Unable create requisite directories. Exception:'' @ [NL] @
                    exn_text E x) (w\<lparr>fs := fsys\<rparr>))"

section \<open>Log retrieval: \<^verbatim>\<open>pull_logs\<close>\<close>

definition categories :: "string list" where
  "categories = [''bridge'', ''stream'', ''analog'', ''preview'']"

definition log_url :: "pyval \<Rightarrow> string" where
  "log_url archiver = ''http://'' @ py_str archiver @ ''.eagleeyenetworks.com:28080/query/camera_logs''"

definition log_request ::
  "ArchiverBridgeLogRetriever \<Rightarrow> pyval \<Rightarrow> pyval \<Rightarrow> string \<Rightarrow> string \<Rightarrow> string \<Rightarrow> request" where
  "log_request self di_esn archiver st et t =
     \<lparr>via_session = False, url = log_url archiver,
      params = [(''c'', di_esn), (''t'', PStr st), (''e'', PStr et), (''q'', PStr ''none''),
                (''l'', PStr t)],
      cookies = auth_cookies self, stream = True, timeout = Some 240\<rparr>"

definition log_path :: "pyval \<Rightarrow> pyval \<Rightarrow> string \<Rightarrow> string" where
  "log_path di_esn archiver_name t =
     posix_join ''.'' (''bridge_logs/'' @ py_str di_esn @ ''.'' @ py_str archiver_name @ ''_'' @ t @ ''.log'')"

text \<open>
  The loop over \<^verbatim>\<open>log_response.iter_lines()\<close>, whose lines are taken to arrive all: the
  line count, the rotating queue of progress characters, the text written to the file so
  far and the writes to standard output. \<^verbatim>\<open>pop(0)\<close> raises on an empty queue.
\<close>

fun write_lines ::
  "string list \<Rightarrow> nat \<Rightarrow> string list \<Rightarrow> string \<Rightarrow> string list \<Rightarrow>
     exn option \<times> nat \<times> string \<times> string list" where
  "write_lines [] count queue f out = (None, count, f, out)"
| "write_lines (line # rest) count queue f out =
     (let f = f @ bytes_repr line @ [NL] in
      if count mod 10 = 0 then
        (case queue of
           [] \<Rightarrow> (Some IndexError, count, f, out)
         | p_char # q \<Rightarrow> write_lines rest (count + 1) (q @ [p_char]) f (out @ [[BS], p_char]))
      else write_lines rest (count + 1) queue f out)"

definition output_busy_queue :: "string list" where
  "output_busy_queue = [''|'', ''/'', ''-'', [BACKSLASH]]"

text \<open>One turn of the loop over the categories; \<open>Some x\<close> is an exception that leaves it.\<close>

definition fetch_category ::
  "ArchiverBridgeLogRetriever \<Rightarrow> pyval \<Rightarrow> pyval \<Rightarrow> string \<Rightarrow> string \<Rightarrow> env \<Rightarrow> string \<Rightarrow>
     world \<Rightarrow> exn option \<times> world" where
  "fetch_category self di_esn archiver_name st et E t w =
     (let w = py_print (''Fetching '' @ t @ '' logs for '' @ py_str di_esn) w;
          w = w\<lparr>net_log := net_log w @ [log_request self di_esn archiver_name st et t]\<rparr>
      in (case net E (log_request self di_esn archiver_name st et t) of
            Inl x \<Rightarrow> (Some x, w)
          | Inr log_response \<Rightarrow>
              (if status_code log_response = 200 then
                 (case open_w (log_path di_esn archiver_name t) (fs w) of
                    Inl x \<Rightarrow> (Some x, w)
                  | Inr (loc, fsys) \<Rightarrow>
                      (let w = sys_stdout_write ''.'' (w\<lparr>fs := fsys\<rparr>);
                           (raised, count, text, out) =
                              write_lines (iter_lines log_response) 0 output_busy_queue [] [];
                           w = w\<lparr>fs := (fs w)\<lparr>files := (files (fs w))(loc \<mapsto> text)\<rparr>,
                                  stdout := stdout w @ out\<rparr>
                       in (case raised of
                             Some x \<Rightarrow> (Some x, w)
                           | None \<Rightarrow>
                               (let w = sys_stdout_write [BS] w;
                                    w = py_print (''  '' @ log_path di_esn archiver_name t @ '' '' @
                                                  str_nat count @ '' lines'') w
                                in (None, py_print (''  Took '' @ elapsed E t @ '' seconds'') w)))))
               else
                 (let w = py_print (''  '' @ str_int (status_code log_response) @ '' '' @
                                    bytes_repr (content log_response)) w
                  in (None, py_print (''  Took '' @ elapsed E t @ '' seconds'') w)))))"

fun pull_loop ::
  "ArchiverBridgeLogRetriever \<Rightarrow> pyval \<Rightarrow> pyval \<Rightarrow> string \<Rightarrow> string \<Rightarrow> env \<Rightarrow> string list \<Rightarrow>
     world \<Rightarrow> exn option \<times> world" where
  "pull_loop self di_esn archiver_name st et E [] w = (None, w)"
| "pull_loop self di_esn archiver_name st et E (t # ts) w =
     (case fetch_category self di_esn archiver_name st et E t w of
        (Some x, w') \<Rightarrow> (Some x, w')
      | (None, w') \<Rightarrow> pull_loop self di_esn archiver_name st et E ts w')"

text \<open>\<^verbatim>\<open>pull_logs(self, di, a, st, et)\<close>; \<open>di\<close> holds the attributes of the object passed.\<close>

definition pull_logs ::
  "ArchiverBridgeLogRetriever \<Rightarrow> DeviceInfo \<Rightarrow> int \<Rightarrow> datetime \<Rightarrow> datetime \<Rightarrow> env \<Rightarrow>
     world \<Rightarrow> exn option \<times> world" where
  "pull_logs self di a st et E w =
     (case esn di of
        None \<Rightarrow> (Some AttributeError, w)
      | Some di_esn \<Rightarrow>
          (let w = create_dirs self di_esn E w;
               st' = convert_dt_to_een_time st;
               et' = convert_dt_to_een_time et
           in (case archivers di of
                 None \<Rightarrow> (Some AttributeError, w)
               | Some archs \<Rightarrow>
                   (case py_getitem archs (PInt a) of
                      Inl x \<Rightarrow> (Some x, w)
                    | Inr archiver_name \<Rightarrow>
                        pull_loop self di_esn archiver_name st' et' E categories w))))"

section \<open>Notions used to state the properties\<close>


text \<open>The text the loop \<^verbatim>\<open>f.write(str(line) + '\n')\<close> leaves in the file for the lines
  of a response.\<close>

definition written_text :: "string list \<Rightarrow> string" where
  "written_text ls = concat (map (\<lambda>line. bytes_repr line @ [NL]) ls)"

text \<open>What \<^verbatim>\<open>pull_logs\<close> prints about the answer to a category: the path and the line
  count after a 200, the status and the body otherwise.\<close>

definition category_report :: "pyval \<Rightarrow> pyval \<Rightarrow> string \<Rightarrow> response \<Rightarrow> string" where
  "category_report di_esn archiver_name t r =
     (if status_code r = 200
      then ''  '' @ log_path di_esn archiver_name t @ '' '' @ str_nat (length (iter_lines r)) @
           '' lines'' @ [NL]
      else ''  '' @ str_int (status_code r) @ '' '' @ bytes_repr (content r) @ [NL])"

text \<open>\<^verbatim>\<open>open(p, "w")\<close> succeeds.\<close>

definition can_open_w :: "filesystem \<Rightarrow> string \<Rightarrow> bool" where
  "can_open_w fsys p = (case open_w p fsys of Inl x \<Rightarrow> False | Inr lf \<Rightarrow> True)"

text \<open>The contents of the regular file a path leads to, if there is one.\<close>

definition read_file :: "filesystem \<Rightarrow> string \<Rightarrow> string option" where
  "read_file fsys p = (case lookup_path fsys p of None \<Rightarrow> None | Some loc \<Rightarrow> files fsys loc)"

text \<open>The part of a log path that does not depend on the category, and the name of the
  log file of a category.\<close>

definition log_prefix :: "pyval \<Rightarrow> pyval \<Rightarrow> string" where
  "log_prefix e arch = ''./bridge_logs/'' @ py_str e @ ''.'' @ py_str arch @ ''_''"

definition log_name :: "pyval \<Rightarrow> pyval \<Rightarrow> string \<Rightarrow> string" where
  "log_name e arch t = py_str e @ ''.'' @ py_str arch @ ''_'' @ t @ ''.log''"

section \<open>Example data\<close>

definition example_datetime :: datetime where
  "example_datetime =
     \<lparr>year = 2024, month = 3, day = 5, hour = 14, minute = 30, second = 0,
      microsecond = 123456\<rparr>"

text \<open>
  A retriever after authentication, a device-info service that knows every device but
  \<^verbatim>\<open>forbidden\<close> (answered 403), \<^verbatim>\<open>empty\<close> (an empty \<^verbatim>\<open>data\<close> array) and \<^verbatim>\<open>malformed\<close>
  (a \<^verbatim>\<open>data\<close> array holding an empty object), and an archiver that answers the categories
  \<^verbatim>\<open>bridge\<close> and \<^verbatim>\<open>analog\<close> with 200 and two lines, the other two with 500.
\<close>

definition example_self :: ArchiverBridgeLogRetriever where
  "example_self =
     \<lparr>auth_base_url = ''https://c001.eagleeyenetworks.com'', auth_key = ''k1'', token = ''tok'',
      user_data = PDict [(PStr ''active_brand_subdomain'', PStr ''c001'')], username = ''user@een.com'',
      authent_url = ''/g/aaa/authenticate'', author_url = ''/g/aaa/authorize'',
      base_url = ''https://login.eagleeyenetworks.com'', session = Session False\<rparr>"

definition example_device_json :: "string \<Rightarrow> pyval" where
  "example_device_json e =
     PDict [(PStr ''data'', PList [PDict
       [(PStr ''esn'', PStr e), (PStr ''type'', PStr ''bridge''), (PStr ''name'', PStr ''Lobby''),
        (PStr ''cluster'', PStr ''c001''),
        (PStr ''disks_ips'', PDict [(PStr ''a1471'', PStr ''10.0.0.1''), (PStr ''a2002'', PStr ''10.0.0.2'')]),
        (PStr ''states'', PDict [(PStr ''a2002'', PDict [(PStr ''state'', PStr ''degraded'')]),
                                 (PStr ''a1471'', PDict [(PStr ''state'', PStr ''ok'')])])]])]"

definition example_forbidden_response :: response where
  "example_forbidden_response =
     \<lparr>status_code = 403, content = ''Forbidden'', json = None, iter_lines = []\<rparr>"

definition example_empty_response :: response where
  "example_empty_response =
     \<lparr>status_code = 200, content = ''(json: data = [])'',
      json = Some (PDict [(PStr ''data'', PList [])]), iter_lines = []\<rparr>"

definition example_log_response :: "string \<Rightarrow> response" where
  "example_log_response t =
     (if t = ''bridge'' \<or> t = ''analog''
      then \<lparr>status_code = 200, content = ''abc'', json = None, iter_lines = [''abc'', ''it is'']\<rparr>
      else \<lparr>status_code = 500, content = ''oops'', json = None, iter_lines = []\<rparr>)"

definition example_net :: "request \<Rightarrow> exn + response" where
  "example_net r =
     (if via_session r then
        (if url r = device_info_url ''forbidden'' then Inr example_forbidden_response
         else if url r = device_info_url ''empty'' then Inr example_empty_response
         else if url r = device_info_url ''malformed'' then
           Inr \<lparr>status_code = 200, content = ''(json: data = [{}])'',
                json = Some (PDict [(PStr ''data'', PList [PDict []])]), iter_lines = []\<rparr>
         else
           Inr \<lparr>status_code = 200, content = ''(json: device details)'',
                json = Some (example_device_json (drop (length (device_info_url [])) (url r))),
                iter_lines = []\<rparr>)
      else (case map_of (params r) ''l'' of
              Some (PStr t) \<Rightarrow> Inr (example_log_response t)
            | _ \<Rightarrow> Inl RequestException))"

definition example_env :: env where
  "example_env =
     \<lparr>net = example_net, script_file = ''get_bridge_logs.py'', elapsed = (\<lambda>t. ''0.10''),
      exn_text = (\<lambda>x. ''error'')\<rparr>"

definition example_fs :: filesystem where
  "example_fs = \<lparr>cwd = [''work''], dirs = {[], [''work'']}, files = Map.empty\<rparr>"

definition unset_DeviceInfo :: DeviceInfo where
  "unset_DeviceInfo =
     \<lparr>esn = None, type = None, name = None, cluster = None, disk_ips = None, archivers = None,
      archiver_states = None\<rparr>"

definition example_world :: world where
  "example_world =
     \<lparr>fs = example_fs, stdout = [], net_log = [], DeviceInfo_class = unset_DeviceInfo\<rparr>"

text \<open>The attributes \<^verbatim>\<open>get_device_info\<close> leaves for the device \<^verbatim>\<open>100bbc9c\<close>.\<close>

definition example_device :: DeviceInfo where
  "example_device =
     \<lparr>esn = Some (PStr ''100bbc9c''), type = Some (PStr ''bridge''), name = Some (PStr ''Lobby''),
      cluster = Some (PStr ''c001''),
      disk_ips = Some (PDict [(PStr ''a1471'', PStr ''10.0.0.1''), (PStr ''a2002'', PStr ''10.0.0.2'')]),
      archivers = Some (PList [PStr ''a1471'', PStr ''a2002'']),
      archiver_states = Some (PDict [(PStr ''a1471'', PStr ''ok''), (PStr ''a2002'', PStr ''degraded'')])\<rparr>"

section \<open>Properties of the timestamp encoding\<close>




lemma length_str_nat_pos: "0 < length (str_nat n)"
  by (subst str_nat.simps) simp








section \<open>Properties of device resolution\<close>

lemma run_steps_None_append:
  "run_steps (xs @ ys) w = (None, w') \<longleftrightarrow> (\<exists>w1. run_steps xs w = (None, w1) \<and> run_steps ys w1 = (None, w'))"
  by (induction xs arbitrary: w) (auto split: prod.splits option.splits)

lemma map_fst_dict_set:
  "map fst (dict_set d k v) =
     (if key_norm k \<in> set (map (key_norm \<circ> fst) d) then map fst d else map fst d @ [k])"
  by (induction d k v rule: dict_set.induct) auto

lemma keys_dict_set:
  "map (key_norm \<circ> fst) (dict_set d k v) =
     (if key_norm k \<in> set (map (key_norm \<circ> fst) d) then map (key_norm \<circ> fst) d
      else map (key_norm \<circ> fst) d @ [key_norm k])"
  by (induction d k v rule: dict_set.induct) auto

lemma distinct_dict_set:
  "distinct (map (key_norm \<circ> fst) d) \<Longrightarrow> distinct (map (key_norm \<circ> fst) (dict_set d k v))"
  by (simp add: keys_dict_set)

lemma distinct_fold_dict_set:
  "distinct (map (key_norm \<circ> fst) acc) \<Longrightarrow>
   distinct (map (key_norm \<circ> fst) (fold (\<lambda>kv acc. dict_set acc (fst kv) (snd kv)) d acc))"
  by (induction d arbitrary: acc) (simp_all add: distinct_dict_set)

lemma distinct_dict_update_seq:
  "dict_update_seq acc es = Inr d \<Longrightarrow> distinct (map (key_norm \<circ> fst) acc) \<Longrightarrow>
   distinct (map (key_norm \<circ> fst) d)"
  by (induction es arbitrary: acc) (auto split: sum.splits simp: distinct_dict_set)

lemma distinct_py_dict:
  "py_dict v = Inr d \<Longrightarrow> distinct (map (key_norm \<circ> fst) d)"
  by (auto simp: py_dict_def split: pyval.splits dest: distinct_dict_update_seq
      intro: distinct_fold_dict_set [of "[]", simplified])

lemma build_states_keys:
  "build_states jr ks acc = Inr sts \<Longrightarrow>
   distinct (map (key_norm \<circ> fst) acc @ map key_norm ks) \<Longrightarrow>
   map fst sts = map fst acc @ ks"
proof (induction ks arbitrary: acc)
  case Nil
  then show ?case by simp
next
  case (Cons a ks)
  from Cons.prems(1) obtain st where
    st: "build_states jr ks (dict_set acc a st) = Inr sts"
    by (auto split: sum.splits)
  from Cons.prems(2) have notin: "key_norm a \<notin> set (map (key_norm \<circ> fst) acc)" by auto
  then have k: "map (key_norm \<circ> fst) (dict_set acc a st) = map (key_norm \<circ> fst) acc @ [key_norm a]"
    and f: "map fst (dict_set acc a st) = map fst acc @ [a]"
    by (simp_all add: keys_dict_set map_fst_dict_set)
  from Cons.prems(2) have "distinct ((map (key_norm \<circ> fst) acc @ [key_norm a]) @ map key_norm ks)"
    by (auto simp: comp_def)
  then have "distinct (map (key_norm \<circ> fst) (dict_set acc a st) @ map key_norm ks)"
    by (simp only: k)
  from Cons.IH [OF st this] show ?case by (simp add: f)
qed


lemma set_di_simps [simp]:
  "fs (set_di f w) = fs w" "stdout (set_di f w) = stdout w" "net_log (set_di f w) = net_log w"
  "DeviceInfo_class (set_di f w) = f (DeviceInfo_class w)"
  by (simp_all add: set_di_def)

lemma py_print_simps [simp]:
  "fs (py_print s w) = fs w" "stdout (py_print s w) = stdout w @ [s @ [NL]]"
  "net_log (py_print s w) = net_log w" "DeviceInfo_class (py_print s w) = DeviceInfo_class w"
  by (simp_all add: py_print_def sys_stdout_write_def)

lemma assign_item_None:
  "assign_item jr key setter w = (None, w') \<longleftrightarrow>
     (\<exists>v. py_getitem jr (PStr key) = Inr v \<and> w' = set_di (setter v) w)"
  by (auto simp: assign_item_def split: sum.splits)

lemma assign_archivers_None:
  "assign_archivers jr w = (None, w') \<longleftrightarrow>
     (\<exists>v disks. py_getitem jr (PStr ''disks_ips'') = Inr v \<and> py_dict v = Inr disks \<and>
        w' = set_di (\<lambda>d. d\<lparr>archivers := Some (PList (map fst disks))\<rparr>) w)"
  by (auto simp: assign_archivers_def split: sum.splits)

lemma assign_archiver_states_None:
  "assign_archiver_states jr w = (None, w') \<longleftrightarrow>
     (\<exists>a_list a_states. archivers (DeviceInfo_class w) = Some (PList a_list) \<and>
        build_states jr a_list [] = Inr a_states \<and>
        w' = set_di (\<lambda>d. d\<lparr>archiver_states := Some (PDict a_states)\<rparr>) w)"
  by (auto simp: assign_archiver_states_def split: sum.splits option.splits pyval.splits)

lemma run_steps_Cons_None:
  "run_steps (s # ss) w = (None, w') \<longleftrightarrow> (\<exists>w1. s w = (None, w1) \<and> run_steps ss w1 = (None, w'))"
  by (auto split: prod.splits option.splits)

lemma run_steps_Nil_None: "run_steps [] w = (None, w') \<longleftrightarrow> w' = w"
  by auto

lemma read_device_info_Inr:
  assumes "read_device_info r w = (Inr obj, w')"
  shows "\<exists>v disks sts.
           disk_ips (DeviceInfo_class w') = Some v \<and> py_dict v = Inr disks \<and>
           archivers (DeviceInfo_class w') = Some (PList (map fst disks)) \<and>
           archiver_states (DeviceInfo_class w') = Some (PDict sts) \<and>
           map fst sts = map fst disks \<and> fs w' = fs w \<and> net_log w' = net_log w \<and> stdout w' = stdout w"
proof -
  from assms obtain jr w1 where
    steps: "run_steps
        [assign_item jr ''esn'' (\<lambda>v d. d\<lparr>esn := Some v\<rparr>),
         assign_item jr ''type'' (\<lambda>v d. d\<lparr>type := Some v\<rparr>),
         assign_item jr ''name'' (\<lambda>v d. d\<lparr>name := Some v\<rparr>),
         assign_item jr ''cluster'' (\<lambda>v d. d\<lparr>cluster := Some v\<rparr>),
         assign_item jr ''disks_ips'' (\<lambda>v d. d\<lparr>disk_ips := Some v\<rparr>),
         assign_archivers jr,
         assign_archiver_states jr] w = (None, w')"
    by (auto simp: read_device_info_def split: option.splits sum.splits prod.splits)
  then obtain v1 v2 v3 v4 v5 v6 disks a_list a_states where
    g5: "py_getitem jr (PStr ''disks_ips'') = Inr v5"
    and g6: "py_getitem jr (PStr ''disks_ips'') = Inr v6" and d: "py_dict v6 = Inr disks"
    and al: "archivers (DeviceInfo_class
        (set_di (\<lambda>d. d\<lparr>archivers := Some (PList (map fst disks))\<rparr>)
        (set_di (\<lambda>d. d\<lparr>disk_ips := Some v5\<rparr>)
        (set_di (\<lambda>d. d\<lparr>cluster := Some v4\<rparr>)
        (set_di (\<lambda>d. d\<lparr>name := Some v3\<rparr>)
        (set_di (\<lambda>d. d\<lparr>type := Some v2\<rparr>)
        (set_di (\<lambda>d. d\<lparr>esn := Some v1\<rparr>) w))))))) = Some (PList a_list)"
    and bs: "build_states jr a_list [] = Inr a_states"
    and w': "w' = set_di (\<lambda>d. d\<lparr>archiver_states := Some (PDict a_states)\<rparr>)
        (set_di (\<lambda>d. d\<lparr>archivers := Some (PList (map fst disks))\<rparr>)
        (set_di (\<lambda>d. d\<lparr>disk_ips := Some v5\<rparr>)
        (set_di (\<lambda>d. d\<lparr>cluster := Some v4\<rparr>)
        (set_di (\<lambda>d. d\<lparr>name := Some v3\<rparr>)
        (set_di (\<lambda>d. d\<lparr>type := Some v2\<rparr>)
        (set_di (\<lambda>d. d\<lparr>esn := Some v1\<rparr>) w))))))"
    unfolding run_steps_Cons_None assign_item_None assign_archivers_None
      assign_archiver_states_None run_steps_Nil_None
    by blast
  from g5 g6 have v56: "v6 = v5" by simp
  from al have a_list: "a_list = map fst disks" by simp
  from distinct_py_dict [OF d] have "distinct (map (key_norm \<circ> fst) [] @ map key_norm (map fst disks))"
    by (simp add: comp_def)
  from build_states_keys [OF bs [unfolded a_list] this] have "map fst a_states = map fst disks" by simp
  with d v56 show ?thesis by (simp add: w')
qed

lemma list_index_exn: "list_index xs i = Inl x \<Longrightarrow> x = IndexError"
  by (auto simp: list_index_def Let_def split: if_splits)

lemma py_getitem_exn: "py_getitem v k = Inl x \<Longrightarrow> is_Exception x"
  by (auto simp: py_getitem_def is_Exception_def split: pyval.splits if_splits option.splits sum.splits
      dest: list_index_exn)

lemma py_getitems_exn: "py_getitems v ks = Inl x \<Longrightarrow> is_Exception x"
  by (induction ks arbitrary: v) (auto split: sum.splits dest: py_getitem_exn)

lemma pair_of_exn: "pair_of e = Inl x \<Longrightarrow> is_Exception x"
  by (auto simp: pair_of_def is_Exception_def split: pyval.splits list.splits if_splits)

lemma dict_update_seq_exn: "dict_update_seq d es = Inl x \<Longrightarrow> is_Exception x"
  by (induction es arbitrary: d) (auto split: sum.splits dest: pair_of_exn)

lemma py_dict_exn: "py_dict v = Inl x \<Longrightarrow> is_Exception x"
  by (auto simp: py_dict_def is_Exception_def split: pyval.splits dest: dict_update_seq_exn)

lemma build_states_exn: "build_states jr ks acc = Inl x \<Longrightarrow> is_Exception x"
  by (induction ks arbitrary: acc)
    (auto simp del: py_getitems.simps split: sum.splits dest: py_getitems_exn)

lemma assign_item_exn: "assign_item jr key setter w = (Some x, w') \<Longrightarrow> is_Exception x"
  by (auto simp: assign_item_def split: sum.splits dest: py_getitem_exn)

lemma assign_archivers_exn: "assign_archivers jr w = (Some x, w') \<Longrightarrow> is_Exception x"
  by (auto simp: assign_archivers_def split: sum.splits dest: py_getitem_exn py_dict_exn)

lemma assign_archiver_states_exn: "assign_archiver_states jr w = (Some x, w') \<Longrightarrow> is_Exception x"
  by (auto simp: assign_archiver_states_def is_Exception_def
      split: sum.splits option.splits pyval.splits dest: build_states_exn)

lemma run_steps_exn:
  "run_steps steps w = (Some x, w') \<Longrightarrow>
   (\<And>s w1 w2 y. s \<in> set steps \<Longrightarrow> s w1 = (Some y, w2) \<Longrightarrow> is_Exception y) \<Longrightarrow> is_Exception x"
proof (induction steps arbitrary: w)
  case Nil
  then show ?case by simp
next
  case (Cons s steps)
  show ?case
  proof (cases "s w")
    case (Pair r w1)
    show ?thesis
    proof (cases r)
      case None
      have rest: "is_Exception y" if "s' \<in> set steps" "s' u = (Some y, u')" for s' u u' y
        using Cons.prems(2) [of s' u y u'] that by simp
      from None Pair Cons.prems(1) have "run_steps steps w1 = (Some x, w')" by simp
      then show ?thesis using rest by (rule Cons.IH)
    next
      case (Some y)
      with Pair Cons.prems(1) have "y = x" by simp
      with Some Pair Cons.prems(2) [of s w x w1] show ?thesis by simp
    qed
  qed
qed

lemma read_device_info_exn: "read_device_info r w = (Inl x, w') \<Longrightarrow> is_Exception x"
proof -
  assume a: "read_device_info r w = (Inl x, w')"
  show ?thesis
  proof (cases "json r")
    case None
    with a show ?thesis by (simp add: read_device_info_def is_Exception_def)
  next
    case (Some body)
    show ?thesis
    proof (cases "py_getitems body [PStr ''data'', PInt 0]")
      case (Inl y)
      with a Some have "y = x" by (simp add: read_device_info_def del: py_getitems.simps)
      with Inl show ?thesis by (auto simp del: py_getitems.simps dest: py_getitems_exn)
    next
      case (Inr jr)
      with a Some obtain steps where
        st: "run_steps steps w = (Some x, w')" and
        steps: "steps = [assign_item jr ''esn'' (\<lambda>v d. d\<lparr>esn := Some v\<rparr>),
         assign_item jr ''type'' (\<lambda>v d. d\<lparr>type := Some v\<rparr>),
         assign_item jr ''name'' (\<lambda>v d. d\<lparr>name := Some v\<rparr>),
         assign_item jr ''cluster'' (\<lambda>v d. d\<lparr>cluster := Some v\<rparr>),
         assign_item jr ''disks_ips'' (\<lambda>v d. d\<lparr>disk_ips := Some v\<rparr>),
         assign_archivers jr,
         assign_archiver_states jr]"
        by (auto simp: read_device_info_def simp del: py_getitems.simps run_steps.simps
            split: prod.splits option.splits)
      show ?thesis
        by (rule run_steps_exn [OF st])
          (auto simp: steps dest: assign_item_exn assign_archivers_exn assign_archiver_states_exn)
    qed
  qed
qed

lemma device_info_try_response:
  "net E (device_info_request self e) = Inr r \<Longrightarrow>
   device_info_try self e E w =
     (let w1 = py_print (bytes_repr (content r)) (w\<lparr>net_log := net_log w @ [device_info_request self e]\<rparr>) in
      if response_ok r then read_device_info r w1
      else (Inl (SystemExit 1),
            (if status_code r = 403
             then py_print ''Unauthorized. Please ensure you are connected to the EagleEye VPN.''
             else id)
              (py_print (''Unable to retrieve device info. Response: '' @ str_int (status_code r)) w1)))"
  by (simp add: device_info_try_def Let_def)

lemma get_device_info_Inr:
  assumes "fst (get_device_info self e E w) = Inr obj"
  shows "\<exists>r w1. net E (device_info_request self e) = Inr r \<and> response_ok r \<and>
           read_device_info r w1 = (Inr obj, snd (snd (get_device_info self e E w)))"
proof -
  let ?w = "py_print (NL # ''Requesting data from: '' @ device_info_url e) w"
  obtain res w' where t: "device_info_try self e E ?w = (res, w')" by (cases "device_info_try self e E ?w")
  from assms t have res: "res = Inr obj"
    by (auto simp: get_device_info_def device_info_except_def Let_def split: sum.splits if_splits)
  with t have w': "snd (snd (get_device_info self e E w)) = w'"
    by (simp add: get_device_info_def device_info_except_def Let_def)
  from t res obtain r where r: "net E (device_info_request self e) = Inr r"
    by (cases "net E (device_info_request self e)") (auto simp: device_info_try_def Let_def)
  from t res have "response_ok r \<and> read_device_info r
      (py_print (bytes_repr (content r)) (?w\<lparr>net_log := net_log ?w @ [device_info_request self e]\<rparr>)) = (Inr obj, w')"
    by (auto simp: device_info_try_response [OF r] Let_def split: if_splits)
  with r w' show ?thesis by auto
qed

text \<open>
  C5. Key-set invariant: after every successful call of \<^verbatim>\<open>get_device_info\<close> the list of
  archivers is the list of keys of \<^verbatim>\<open>dict(disks_ips)\<close> in its order, and the keys of the
  archiver-state dictionary are that same list: the two key sets are equal and every
  archiver has exactly one state.
\<close>

theorem device_info_archiver_keys:
  assumes "fst (get_device_info self e E w) = Inr obj"
  shows "\<exists>ks sts v disks.
           archivers (DeviceInfo_class (snd (snd (get_device_info self e E w)))) = Some (PList ks) \<and>
           archiver_states (DeviceInfo_class (snd (snd (get_device_info self e E w)))) = Some (PDict sts) \<and>
           set ks = fst ` set sts \<and> map fst sts = ks \<and> distinct (map key_norm ks) \<and>
           disk_ips (DeviceInfo_class (snd (snd (get_device_info self e E w)))) = Some v \<and>
           py_dict v = Inr disks \<and> ks = map fst disks"
proof -
  from get_device_info_Inr [OF assms] obtain r w1 where
    "read_device_info r w1 = (Inr obj, snd (snd (get_device_info self e E w)))" by blast
  from read_device_info_Inr [OF this] obtain v disks sts where
    f: "disk_ips (DeviceInfo_class (snd (snd (get_device_info self e E w)))) = Some v"
      "py_dict v = Inr disks"
      "archivers (DeviceInfo_class (snd (snd (get_device_info self e E w)))) = Some (PList (map fst disks))"
      "archiver_states (DeviceInfo_class (snd (snd (get_device_info self e E w)))) = Some (PDict sts)"
      "map fst sts = map fst disks"
    by blast
  from distinct_py_dict [OF f(2)] have "distinct (map key_norm (map fst disks))" by (simp add: comp_def)
  moreover from f(5) have "set (map fst disks) = fst ` set sts" by (metis set_map)
  ultimately show ?thesis using f by blast
qed

theorem device_info_archiver_keys_witness:
  "fst (get_device_info example_self ''100bbc9c'' example_env example_world) =
     Inr DeviceInfo_class_object \<and>
   archivers (DeviceInfo_class
       (snd (snd (get_device_info example_self ''100bbc9c'' example_env example_world)))) =
     Some (PList [PStr ''a1471'', PStr ''a2002'']) \<and>
   (\<exists>sts. archiver_states (DeviceInfo_class
       (snd (snd (get_device_info example_self ''100bbc9c'' example_env example_world)))) =
     Some (PDict sts) \<and> map fst sts = [PStr ''a1471'', PStr ''a2002''])"
proof -
  have h: "fst (get_device_info example_self ''100bbc9c'' example_env example_world) =
      Inr DeviceInfo_class_object"
    by code_simp
  have a: "archivers (DeviceInfo_class
       (snd (snd (get_device_info example_self ''100bbc9c'' example_env example_world)))) =
     Some (PList [PStr ''a1471'', PStr ''a2002''])"
    by code_simp
  from device_info_archiver_keys [OF h] a h show ?thesis by auto
qed

text \<open>
  C8. A 403 answer of the device-info endpoint: \<^verbatim>\<open>get_device_info\<close> prints the hint to
  connect to the VPN as its last output and leaves by \<^verbatim>\<open>sys.exit(1)\<close>; nothing is stored.
\<close>

theorem device_info_forbidden:
  assumes "net E (device_info_request self e) = Inr r" and "status_code r = 403"
  shows "fst (get_device_info self e E w) = Inl (SystemExit 1) \<and>
         last (stdout (snd (snd (get_device_info self e E w)))) =
           ''Unauthorized. Please ensure you are connected to the EagleEye VPN.'' @ [NL] \<and>
         DeviceInfo_class (snd (snd (get_device_info self e E w))) = DeviceInfo_class w \<and>
         fs (snd (snd (get_device_info self e E w))) = fs w"
  using assms
  by (simp add: get_device_info_def device_info_except_def device_info_try_response [OF assms(1)]
      Let_def response_ok_def is_Exception_def)

theorem device_info_forbidden_witness:
  "net example_env (device_info_request example_self ''forbidden'') = Inr example_forbidden_response \<and>
   status_code example_forbidden_response = 403 \<and>
   fst (get_device_info example_self ''forbidden'' example_env example_world) = Inl (SystemExit 1) \<and>
   last (stdout (snd (snd (get_device_info example_self ''forbidden'' example_env example_world)))) =
     ''Unauthorized. Please ensure you are connected to the EagleEye VPN.'' @ [NL]"
proof -
  have n: "net example_env (device_info_request example_self ''forbidden'') =
      Inr example_forbidden_response"
    by (simp add: example_env_def example_net_def device_info_request_def)
  have c: "status_code example_forbidden_response = 403"
    by (simp add: example_forbidden_response_def)
  from device_info_forbidden [OF n c, of example_world] n c show ?thesis by simp
qed

text \<open>
  C6, as the code has it. Whatever the response, \<^verbatim>\<open>get_device_info\<close> returns or leaves by
  \<^verbatim>\<open>sys.exit(1)\<close>: no exception of the \<^verbatim>\<open>try\<close> block reaches the caller. When the response
  is ok and its \<^verbatim>\<open>data\<close> is the empty array, the \<^verbatim>\<open>IndexError\<close> handler runs: the last output
  is \<^verbatim>\<open>Invalid result. Check ESN.\<close> and nothing is stored.
\<close>

theorem device_info_empty_data:
  assumes "net E (device_info_request self e) = Inr r"
  shows "(fst (get_device_info self e E w) = Inr DeviceInfo_class_object \<or>
          fst (get_device_info self e E w) = Inl (SystemExit 1)) \<and>
         (response_ok r \<and> (\<exists>body. json r = Some body \<and> py_getitem body (PStr ''data'') = Inr (PList [])) \<longrightarrow>
            fst (get_device_info self e E w) = Inl (SystemExit 1) \<and>
            last (stdout (snd (snd (get_device_info self e E w)))) = ''Invalid result. Check ESN.'' @ [NL] \<and>
            DeviceInfo_class (snd (snd (get_device_info self e E w))) = DeviceInfo_class w)"
proof -
  let ?w = "py_print (NL # ''Requesting data from: '' @ device_info_url e) w"
  obtain res w' where t: "device_info_try self e E ?w = (res, w')" by (cases "device_info_try self e E ?w")
  have part1: "fst (get_device_info self e E w) = Inr DeviceInfo_class_object \<or>
          fst (get_device_info self e E w) = Inl (SystemExit 1)"
  proof (cases res)
    case (Inr obj)
    with t show ?thesis
      by (cases obj) (simp add: get_device_info_def device_info_except_def Let_def)
  next
    case (Inl x)
    have "x = SystemExit 1 \<or> is_Exception x"
    proof (cases "response_ok r")
      case True
      with t Inl have "read_device_info r
        (py_print (bytes_repr (content r)) (?w\<lparr>net_log := net_log ?w @ [device_info_request self e]\<rparr>)) = (Inl x, w')"
        by (simp add: device_info_try_response [OF assms] Let_def)
      then show ?thesis by (auto dest: read_device_info_exn)
    next
      case False
      with t Inl show ?thesis by (simp add: device_info_try_response [OF assms] Let_def)
    qed
    with t Inl show ?thesis
      by (auto simp: get_device_info_def device_info_except_def Let_def is_Exception_def)
  qed
  have part2: "fst (get_device_info self e E w) = Inl (SystemExit 1) \<and>
            last (stdout (snd (snd (get_device_info self e E w)))) = ''Invalid result. Check ESN.'' @ [NL] \<and>
            DeviceInfo_class (snd (snd (get_device_info self e E w))) = DeviceInfo_class w"
    if ok: "response_ok r" and b: "json r = Some body" "py_getitem body (PStr ''data'') = Inr (PList [])"
    for body
  proof -
    have "read_device_info r w1 = (Inl IndexError, w1)" for w1
      using b by (simp add: read_device_info_def py_getitem_def list_index_def)
    with ok show ?thesis
      by (simp add: get_device_info_def device_info_except_def device_info_try_response [OF assms] Let_def)
  qed
  from part1 part2 show ?thesis by blast
qed

theorem device_info_empty_data_witness:
  "net example_env (device_info_request example_self ''empty'') = Inr example_empty_response \<and>
   response_ok example_empty_response \<and>
   fst (get_device_info example_self ''empty'' example_env example_world) = Inl (SystemExit 1) \<and>
   last (stdout (snd (snd (get_device_info example_self ''empty'' example_env example_world)))) =
     ''Invalid result. Check ESN.'' @ [NL]"
proof -
  have n: "net example_env (device_info_request example_self ''empty'') = Inr example_empty_response"
    by (simp add: example_env_def example_net_def device_info_request_def device_info_url_def)
  have ok: "response_ok example_empty_response"
    by (simp add: example_empty_response_def response_ok_def)
  have d: "\<exists>body. json example_empty_response = Some body \<and>
      py_getitem body (PStr ''data'') = Inr (PList [])"
    by (simp add: example_empty_response_def py_getitem_def hashable_def)
  from device_info_empty_data [OF n, of example_world] ok d n show ?thesis by blast
qed

text \<open>
  A \<^verbatim>\<open>data\<close> array whose first element lacks the fields is not reported as an invalid
  result: the \<^verbatim>\<open>KeyError\<close> goes to the handler of \<^verbatim>\<open>Exception\<close>, which reports a failed
  connection.
\<close>

theorem device_info_malformed_data_counterexample:
  "fst (get_device_info example_self ''malformed'' example_env example_world) = Inl (SystemExit 1) \<and>
   (''Invalid result. Check ESN.'' @ [NL])
     \<notin> set (stdout (snd (snd (get_device_info example_self ''malformed'' example_env example_world)))) \<and>
   last (stdout (snd (snd (get_device_info example_self ''malformed'' example_env example_world)))) =
     ''Exception raised when attempting to connect to '' @ device_info_url ''malformed'' @ [NL] @
     ''Exception: '' @ exn_text example_env KeyError @ [NL]"
  by code_simp

lemma example_device_call:
  assumes "e \<notin> {''forbidden'', ''empty'', ''malformed''}"
  shows "fst (get_device_info self e example_env w) = Inr DeviceInfo_class_object"
    and "esn (DeviceInfo_class (snd (snd (get_device_info self e example_env w)))) = Some (PStr e)"
  using assms
  by (simp_all add: get_device_info_def device_info_except_def device_info_try_def
      read_device_info_def assign_item_def assign_archivers_def assign_archiver_states_def
      py_getitem_def py_dict_def list_index_def hashable_def response_ok_def
      device_info_request_def device_info_url_def Let_def
      example_env_def example_net_def example_device_json_def)

text \<open>
  C9. \<^verbatim>\<open>di = DeviceInfo\<close> binds the class, not a new instance: two calls return the same
  object, and what the first call stored is overwritten by the second.
\<close>

theorem device_info_shared_class_object:
  "(let (r1, self1, w1) = get_device_info example_self ''100bbc9c'' example_env example_world;
        (r2, self2, w2) = get_device_info self1 ''100aaaaa'' example_env w1
    in r1 = Inr DeviceInfo_class_object \<and> r2 = r1 \<and>
       esn (DeviceInfo_class w1) = Some (PStr ''100bbc9c'') \<and>
       esn (DeviceInfo_class w2) = Some (PStr ''100aaaaa''))"
proof -
  have "''100bbc9c'' \<notin> {''forbidden'', ''empty'', ''malformed''}"
    and "''100aaaaa'' \<notin> {''forbidden'', ''empty'', ''malformed''}"
    by simp_all
  then show ?thesis
    by (simp add: Let_def split_beta example_device_call)
qed

section \<open>Properties of paths and of the write loop\<close>

lemma write_lines_result:
  "queue \<noteq> [] \<Longrightarrow>
   fst (write_lines ls c queue f out) = None \<and>
   fst (snd (write_lines ls c queue f out)) = c + length ls \<and>
   fst (snd (snd (write_lines ls c queue f out))) = f @ written_text ls"
proof (induction ls arbitrary: c queue f out)
  case Nil
  then show ?case by (simp add: written_text_def)
next
  case (Cons line ls)
  from Cons.prems obtain p q where q: "queue = p # q" by (cases queue) auto
  show ?case
  proof (cases "c mod 10 = 0")
    case True
    have "q @ [p] \<noteq> []" by simp
    from Cons.IH [OF this] True q show ?thesis by (simp add: written_text_def Let_def)
  next
    case False
    from Cons.IH [OF Cons.prems] False show ?thesis by (simp add: written_text_def Let_def)
  qed
qed

lemma split_path_ne [simp]: "split_path p \<noteq> []"
  by (induction p) (auto split: list.splits)

lemma split_path_no_slash: "CHR ''/'' \<notin> set s \<Longrightarrow> split_path s = [s]"
  by (induction s) auto

lemma split_path_append:
  "CHR ''/'' \<notin> set s \<Longrightarrow>
   split_path (p @ s) = butlast (split_path p) @ [last (split_path p) @ s]"
proof (induction p)
  case Nil
  then show ?case by (simp add: split_path_no_slash)
next
  case (Cons c cs)
  obtain w ws where sp: "split_path cs = w # ws" by (cases "split_path cs") auto
  with Cons show ?case by (cases ws) (auto split: list.splits)
qed

lemma walk_append:
  "walk D cur (cs @ ds) = (case walk D cur cs of None \<Rightarrow> None | Some cur' \<Rightarrow> walk D cur' ds)"
  by (induction cs arbitrary: cur) auto

lemma walk_single:
  "c \<noteq> [] \<Longrightarrow> c \<noteq> ''.'' \<Longrightarrow> c \<noteq> ''..'' \<Longrightarrow>
   walk D cur [c] = (if cur \<in> D then Some (cur @ [c]) else None)"
  by simp

lemma log_path_eq: "log_path e arch t = log_prefix e arch @ (t @ ''.log'')"
  by (simp add: log_path_def log_prefix_def posix_join_def)

lemma lookup_log_path:
  assumes "CHR ''/'' \<notin> set t" and "lookup_path fsys (log_path e arch t) = Some loc"
  shows "\<exists>base. walk (dirs fsys) (cwd fsys) (butlast (split_path (log_prefix e arch))) = Some base \<and>
           loc = base @ [last (split_path (log_prefix e arch)) @ t @ ''.log'']"
proof -
  let ?l = "last (split_path (log_prefix e arch))"
  have ns: "CHR ''/'' \<notin> set (t @ ''.log'')" using assms(1) by simp
  have sp: "split_path (log_path e arch t) =
      butlast (split_path (log_prefix e arch)) @ [?l @ (t @ ''.log'')]"
    unfolding log_path_eq by (rule split_path_append [OF ns])
  have hd: "hd (log_path e arch t) = CHR ''.''" by (simp add: log_path_eq log_prefix_def)
  have c: "?l @ (t @ ''.log'') \<noteq> []" "?l @ (t @ ''.log'') \<noteq> ''.''" "?l @ (t @ ''.log'') \<noteq> ''..''"
  proof -
    have "length (?l @ (t @ ''.log'')) \<ge> 4" by simp
    then show "?l @ (t @ ''.log'') \<noteq> []" "?l @ (t @ ''.log'') \<noteq> ''.''" "?l @ (t @ ''.log'') \<noteq> ''..''"
      by (auto simp del: length_append append_assoc)
  qed
  from assms(2) have "walk (dirs fsys) (cwd fsys) (split_path (log_path e arch t)) = Some loc"
    by (simp add: lookup_path_def hd split: if_splits)
  then show ?thesis
    unfolding sp walk_append using walk_single [OF c]
    by (auto split: option.splits if_splits)
qed

lemma lookup_log_path_inj:
  assumes "CHR ''/'' \<notin> set t1" and "CHR ''/'' \<notin> set t2"
    and "lookup_path fsys (log_path e arch t1) = Some loc"
    and "lookup_path fsys (log_path e arch t2) = Some loc"
  shows "t1 = t2"
  using lookup_log_path [OF assms(1) assms(3)] lookup_log_path [OF assms(2) assms(4)]
  by auto

lemma lookup_path_cong:
  "dirs f1 = dirs f2 \<Longrightarrow> cwd f1 = cwd f2 \<Longrightarrow> lookup_path f1 p = lookup_path f2 p"
  by (simp add: lookup_path_def)

lemma can_open_w_iff:
  "can_open_w fsys p \<longleftrightarrow> (\<exists>loc. lookup_path fsys p = Some loc \<and> loc \<notin> dirs fsys)"
  by (auto simp: can_open_w_def open_w_def lookup_path_def split: option.splits if_splits)

lemma open_w_Inr:
  "open_w p fsys = Inr (loc, fsys') \<longleftrightarrow>
     lookup_path fsys p = Some loc \<and> loc \<notin> dirs fsys \<and>
     fsys' = fsys\<lparr>files := (files fsys)(loc \<mapsto> [])\<rparr>"
  by (auto simp: open_w_def lookup_path_def split: option.splits if_splits)

lemma lookup_flat:
  assumes "CHR ''/'' \<notin> set nm" and "CHR 0x00 \<notin> set nm"
    and "nm \<noteq> []" and "nm \<noteq> ''.''" and "nm \<noteq> ''..''"
  shows "lookup_path fsys (''./bridge_logs/'' @ nm) =
     (if cwd fsys \<in> dirs fsys \<and> cwd fsys @ [''bridge_logs''] \<in> dirs fsys
      then Some (cwd fsys @ [''bridge_logs'', nm]) else None)"
proof -
  have "split_path (''./bridge_logs/'' @ nm) = [''.'', ''bridge_logs'', nm]"
    using split_path_append [OF assms(1), of "''./bridge_logs/''"] by simp
  with assms(2-5) show ?thesis by (simp add: lookup_path_def)
qed

lemma lookup_path_no_NUL: "lookup_path fsys p = Some loc \<Longrightarrow> CHR 0x00 \<notin> set p"
  by (simp add: lookup_path_def split: if_splits)

lemma log_path_name: "log_path e arch t = ''./bridge_logs/'' @ log_name e arch t"
  by (simp add: log_path_def posix_join_def log_name_def)

lemma log_name_proper:
  "log_name e arch t \<noteq> []" "log_name e arch t \<noteq> ''.''" "log_name e arch t \<noteq> ''..''"
proof -
  have "length (log_name e arch t) \<ge> 6" by (simp add: log_name_def)
  then show "log_name e arch t \<noteq> []" "log_name e arch t \<noteq> ''.''" "log_name e arch t \<noteq> ''..''"
    by auto
qed

lemma lookup_log_path_flat:
  assumes "lookup_path fsys (log_path e arch t) = Some loc"
    and "CHR ''/'' \<notin> set (py_str e @ py_str arch @ t)"
  shows "loc = cwd fsys @ [''bridge_logs'', log_name e arch t]"
proof -
  from assms(2) have s: "CHR ''/'' \<notin> set (log_name e arch t)" by (simp add: log_name_def)
  from lookup_path_no_NUL [OF assms(1)] have n: "CHR 0x00 \<notin> set (log_name e arch t)"
    by (simp add: log_path_name)
  from assms(1) show ?thesis
    unfolding log_path_name lookup_flat [OF s n log_name_proper]
    by (simp split: if_splits)
qed

lemma walk_mono: "walk D cur cs = Some loc \<Longrightarrow> D \<subseteq> D' \<Longrightarrow> walk D' cur cs = Some loc"
  by (induction cs arbitrary: cur) (auto split: if_splits)

lemma create_dirs_existing:
  "os_path_exists (fs w) (posix_join (os_path_dirname (script_file E)) ''bridge_logs'') \<Longrightarrow>
   create_dirs self (PStr s) E w = w"
  by (simp add: create_dirs_def create_dirs_try_def os_path_join_def
      os_path_exists_function_truth_def Let_def)

lemma create_dirs_absent:
  assumes "\<not> os_path_exists (fs w) (posix_join (os_path_dirname (script_file E)) ''bridge_logs'')"
    and "lookup_path (fs w) (posix_join (os_path_dirname (script_file E)) ''bridge_logs'') = Some loc"
  shows "create_dirs self (PStr s) E w = w\<lparr>fs := (fs w)\<lparr>dirs := insert loc (dirs (fs w))\<rparr>\<rparr>"
    and "os_path_exists (fs (create_dirs self (PStr s) E w))
           (posix_join (os_path_dirname (script_file E)) ''bridge_logs'')"
proof -
  let ?root = "posix_join (os_path_dirname (script_file E)) ''bridge_logs''"
  from assms have ne: "loc \<notin> dirs (fs w)" "loc \<notin> dom (files (fs w))"
    by (auto simp: os_path_exists_def)
  from lookup_path_no_NUL [OF assms(2)] have nul: "CHR 0x00 \<notin> set ?root" .
  from assms ne nul have m: "os_mkdir ?root (fs w) = Inr ((fs w)\<lparr>dirs := insert loc (dirs (fs w))\<rparr>)"
    by (simp add: os_mkdir_def)
  with assms(1) show c: "create_dirs self (PStr s) E w = w\<lparr>fs := (fs w)\<lparr>dirs := insert loc (dirs (fs w))\<rparr>\<rparr>"
    by (simp add: create_dirs_def create_dirs_try_def os_path_join_def
        os_path_exists_function_truth_def Let_def)
  from assms(2) have "lookup_path ((fs w)\<lparr>dirs := insert loc (dirs (fs w))\<rparr>) ?root = Some loc"
    by (auto simp: lookup_path_def split: if_splits intro: walk_mono)
  then show "os_path_exists (fs (create_dirs self (PStr s) E w)) ?root"
    by (simp add: c os_path_exists_def)
qed

lemma create_dirs_idempotent:
  "fs (create_dirs self x E (create_dirs self x E w)) = fs (create_dirs self x E w)"
proof (cases x)
  case (PStr s)
  let ?root = "posix_join (os_path_dirname (script_file E)) ''bridge_logs''"
  show ?thesis
  proof (cases "os_path_exists (fs w) ?root")
    case True
    then show ?thesis by (simp add: PStr create_dirs_existing)
  next
    case False
    show ?thesis
    proof (cases "lookup_path (fs w) ?root")
      case None
      then have "os_mkdir ?root (fs w) = Inl OSError \<or> os_mkdir ?root (fs w) = Inl ValueError"
        by (simp add: os_mkdir_def)
      with False have f: "fs (create_dirs self x E w) = fs w"
        by (auto simp: PStr create_dirs_def create_dirs_try_def os_path_join_def Let_def)
      have "fs (create_dirs self x E w') = fs w'" if "fs w' = fs w" for w'
        using that False \<open>os_mkdir ?root (fs w) = Inl OSError \<or> os_mkdir ?root (fs w) = Inl ValueError\<close>
        by (auto simp: PStr create_dirs_def create_dirs_try_def os_path_join_def Let_def)
      from this [OF f] f show ?thesis by simp
    next
      case (Some loc)
      from create_dirs_absent [OF False Some, of self s] show ?thesis
        by (simp add: PStr create_dirs_existing)
    qed
  qed
qed (simp_all add: create_dirs_def create_dirs_try_def os_path_join_def Let_def)

lemma hex_digit_not_NL: "d < 16 \<Longrightarrow> hex_digit d \<noteq> NL"
proof -
  assume "d < 16"
  then have "d = 0 \<or> d = 1 \<or> d = 2 \<or> d = 3 \<or> d = 4 \<or> d = 5 \<or> d = 6 \<or> d = 7 \<or>
      d = 8 \<or> d = 9 \<or> d = 10 \<or> d = 11 \<or> d = 12 \<or> d = 13 \<or> d = 14 \<or> d = 15"
    by arith
  then show ?thesis by (auto simp: hex_digit_def NL_def)
qed

lemma hex_escape_no_NL: "NL \<notin> set (hex_escape c)"
proof -
  have "(of_char c :: nat) < 256" by (rule nat_of_char_less_256)
  then have "(of_char c :: nat) div 16 < 16" by arith
  then have h1: "hex_digit (of_char c div 16) \<noteq> NL" by (rule hex_digit_not_NL)
  have "(of_char c :: nat) mod 16 < 16" by simp
  then have h2: "hex_digit (of_char c mod 16) \<noteq> NL" by (rule hex_digit_not_NL)
  have "NL \<noteq> BACKSLASH" "NL \<noteq> CHR ''x''" by (simp_all add: NL_def BACKSLASH_def)
  with h1 h2 show ?thesis by (auto simp: hex_escape_def)
qed

lemma bytes_escape_no_NL: "q \<noteq> NL \<Longrightarrow> NL \<notin> set (bytes_escape q c)"
proof -
  assume q: "q \<noteq> NL"
  have "NL \<noteq> BACKSLASH" "NL \<noteq> CHR ''t''" "NL \<noteq> CHR ''n''" "NL \<noteq> CHR ''r''"
    by (simp_all add: NL_def BACKSLASH_def)
  with q hex_escape_no_NL [of c] show ?thesis
    by (auto simp: bytes_escape_def)
qed

lemma bytes_repr_no_NL: "NL \<notin> set (bytes_repr s)"
proof -
  have q: "repr_quote s \<noteq> NL" by (simp add: repr_quote_def NL_def SQUOTE_def DQUOTE_def)
  have "NL \<noteq> CHR ''b''" by (simp add: NL_def)
  with q bytes_escape_no_NL [OF q] show ?thesis
    by (auto simp: bytes_repr_def Let_def)
qed

text \<open>The file holds exactly one newline per line of the response.\<close>

lemma written_text_newlines: "count_list (written_text ls) NL = length ls"
proof (induction ls)
  case Nil
  then show ?case by (simp add: written_text_def)
next
  case (Cons l ls)
  have "count_list (bytes_repr l) NL = 0" using bytes_repr_no_NL [of l] by (simp add: count_list_0_iff)
  with Cons show ?case by (simp add: written_text_def)
qed

section \<open>Properties of log retrieval\<close>

lemma sys_stdout_write_simps [simp]:
  "fs (sys_stdout_write s w) = fs w" "stdout (sys_stdout_write s w) = stdout w @ [s]"
  "net_log (sys_stdout_write s w) = net_log w"
  "DeviceInfo_class (sys_stdout_write s w) = DeviceInfo_class w"
  by (simp_all add: sys_stdout_write_def)

lemma fetch_category_other:
  assumes "net E (log_request self e arch st et t) = Inr r" and "status_code r \<noteq> 200"
  shows "fetch_category self e arch st et E t w =
     (None, py_print (''  Took '' @ elapsed E t @ '' seconds'')
        (py_print (''  '' @ str_int (status_code r) @ '' '' @ bytes_repr (content r))
          ((py_print (''Fetching '' @ t @ '' logs for '' @ py_str e) w)
             \<lparr>net_log := net_log w @ [log_request self e arch st et t]\<rparr>)))"
  using assms by (simp add: fetch_category_def Let_def)

lemma output_busy_queue_ne: "output_busy_queue \<noteq> []"
  by (simp add: output_busy_queue_def)

lemma fetch_category_200:
  assumes "net E (log_request self e arch st et t) = Inr r" and "status_code r = 200"
    and "lookup_path (fs w) (log_path e arch t) = Some loc" and "loc \<notin> dirs (fs w)"
  shows "fst (fetch_category self e arch st et E t w) = None"
    and "net_log (snd (fetch_category self e arch st et E t w)) =
           net_log w @ [log_request self e arch st et t]"
    and "fs (snd (fetch_category self e arch st et E t w)) =
           (fs w)\<lparr>files := (files (fs w))(loc \<mapsto> written_text (iter_lines r))\<rparr>"
    and "DeviceInfo_class (snd (fetch_category self e arch st et E t w)) = DeviceInfo_class w"
    and "set (stdout w) \<subseteq> set (stdout (snd (fetch_category self e arch st et E t w)))"
    and "category_report e arch t r \<in> set (stdout (snd (fetch_category self e arch st et E t w)))"
proof -
  have o: "open_w (log_path e arch t) (fs w) = Inr (loc, (fs w)\<lparr>files := (files (fs w))(loc \<mapsto> [])\<rparr>)"
    using assms(3,4) by (simp add: open_w_Inr)
  obtain x c tx out where
    wl0: "write_lines (iter_lines r) 0 output_busy_queue [] [] = (x, c, tx, out)"
    by (cases "write_lines (iter_lines r) 0 output_busy_queue [] []") auto
  from write_lines_result [OF output_busy_queue_ne, of "iter_lines r" 0 "[]" "[]"] wl0
  have x: "x = None" and c: "c = length (iter_lines r)" and tx: "tx = written_text (iter_lines r)"
    by simp_all
  from wl0 x have wl: "write_lines (iter_lines r) 0 output_busy_queue [] [] = (None, c, tx, out)"
    by simp
  show "fst (fetch_category self e arch st et E t w) = None"
    using assms(1,2) o wl by (simp add: fetch_category_def Let_def)
  show "net_log (snd (fetch_category self e arch st et E t w)) =
           net_log w @ [log_request self e arch st et t]"
    using assms(1,2) o wl by (simp add: fetch_category_def Let_def)
  show "fs (snd (fetch_category self e arch st et E t w)) =
           (fs w)\<lparr>files := (files (fs w))(loc \<mapsto> written_text (iter_lines r))\<rparr>"
    using assms(1,2) o wl tx by (simp add: fetch_category_def Let_def)
  show "DeviceInfo_class (snd (fetch_category self e arch st et E t w)) = DeviceInfo_class w"
    using assms(1,2) o wl by (simp add: fetch_category_def Let_def)
  show "set (stdout w) \<subseteq> set (stdout (snd (fetch_category self e arch st et E t w)))"
    using assms(1,2) o wl by (auto simp: fetch_category_def Let_def)
  show "category_report e arch t r \<in> set (stdout (snd (fetch_category self e arch st et E t w)))"
    using assms(1,2) o wl c by (simp add: fetch_category_def Let_def category_report_def)
qed

text \<open>The effect of one turn, for a category that is answered and whose file can be opened.\<close>

lemma fetch_category_step:
  assumes "net E (log_request self e arch st et t) = Inr r"
    and "status_code r = 200 \<longrightarrow> can_open_w (fs w) (log_path e arch t)"
  shows "fst (fetch_category self e arch st et E t w) = None \<and>
         net_log (snd (fetch_category self e arch st et E t w)) =
           net_log w @ [log_request self e arch st et t] \<and>
         dirs (fs (snd (fetch_category self e arch st et E t w))) = dirs (fs w) \<and>
         cwd (fs (snd (fetch_category self e arch st et E t w))) = cwd (fs w) \<and>
         files (fs (snd (fetch_category self e arch st et E t w))) =
           (if status_code r = 200
            then (\<lambda>loc. if lookup_path (fs w) (log_path e arch t) = Some loc
                        then Some (written_text (iter_lines r)) else files (fs w) loc)
            else files (fs w)) \<and>
         DeviceInfo_class (snd (fetch_category self e arch st et E t w)) = DeviceInfo_class w \<and>
         set (stdout w) \<subseteq> set (stdout (snd (fetch_category self e arch st et E t w))) \<and>
         category_report e arch t r \<in> set (stdout (snd (fetch_category self e arch st et E t w)))"
proof (cases "status_code r = 200")
  case True
  with assms(2) obtain loc where
    loc: "lookup_path (fs w) (log_path e arch t) = Some loc" "loc \<notin> dirs (fs w)"
    by (auto simp: can_open_w_iff)
  note f = fetch_category_200 [OF assms(1) True loc]
  have "files (fs (snd (fetch_category self e arch st et E t w))) =
      (\<lambda>l. if lookup_path (fs w) (log_path e arch t) = Some l
            then Some (written_text (iter_lines r)) else files (fs w) l)"
    using loc by (auto simp: f(3))
  with True f show ?thesis by simp
next
  case False
  note f = fetch_category_other [OF assms(1) False]
  have "set (stdout w) \<subseteq> set (stdout (snd (fetch_category self e arch st et E t w)))"
    by (auto simp: f)
  with False show ?thesis by (simp add: f category_report_def)
qed

lemma pull_loop_Cons_None:
  "fst (fetch_category self e arch st et E t w) = None \<Longrightarrow>
   pull_loop self e arch st et E (t # ts) w =
     pull_loop self e arch st et E ts (snd (fetch_category self e arch st et E t w))"
  by (cases "fetch_category self e arch st et E t w") simp

lemma pull_loop_ok:
  assumes "\<forall>t\<in>set ts. net E (log_request self e arch st et t) = Inr (R t)"
    and "\<forall>t\<in>set ts. status_code (R t) = 200 \<longrightarrow> can_open_w (fs w) (log_path e arch t)"
    and "distinct ts" and "\<forall>t\<in>set ts. CHR ''/'' \<notin> set t"
  shows "fst (pull_loop self e arch st et E ts w) = None \<and>
         net_log (snd (pull_loop self e arch st et E ts w)) =
           net_log w @ map (log_request self e arch st et) ts \<and>
         dirs (fs (snd (pull_loop self e arch st et E ts w))) = dirs (fs w) \<and>
         cwd (fs (snd (pull_loop self e arch st et E ts w))) = cwd (fs w) \<and>
         DeviceInfo_class (snd (pull_loop self e arch st et E ts w)) = DeviceInfo_class w \<and>
         set (stdout w) \<subseteq> set (stdout (snd (pull_loop self e arch st et E ts w))) \<and>
         (\<forall>t\<in>set ts. category_report e arch t (R t)
             \<in> set (stdout (snd (pull_loop self e arch st et E ts w)))) \<and>
         (\<forall>t\<in>set ts. status_code (R t) = 200 \<longrightarrow>
            (\<forall>loc. lookup_path (fs w) (log_path e arch t) = Some loc \<longrightarrow>
               files (fs (snd (pull_loop self e arch st et E ts w))) loc =
                 Some (written_text (iter_lines (R t))))) \<and>
         (\<forall>loc. (\<forall>t\<in>set ts. status_code (R t) = 200 \<longrightarrow>
                    lookup_path (fs w) (log_path e arch t) \<noteq> Some loc) \<longrightarrow>
            files (fs (snd (pull_loop self e arch st et E ts w))) loc = files (fs w) loc)"
  using assms
proof (induction ts arbitrary: w)
  case Nil
  then show ?case by simp
next
  case (Cons t ts)
  let ?w1 = "snd (fetch_category self e arch st et E t w)"
  let ?w' = "snd (pull_loop self e arch st et E ts ?w1)"
  from Cons.prems(1) have n: "net E (log_request self e arch st et t) = Inr (R t)" by simp
  from Cons.prems(2) have o: "status_code (R t) = 200 \<longrightarrow> can_open_w (fs w) (log_path e arch t)"
    by simp
  note s = fetch_category_step [OF n o]
  have lk: "lookup_path (fs ?w1) p = lookup_path (fs w) p" for p
    using s by (intro lookup_path_cong) simp_all
  have co: "can_open_w (fs ?w1) p = can_open_w (fs w) p" for p
    using s by (simp add: can_open_w_iff lk)
  have eq: "pull_loop self e arch st et E (t # ts) w = pull_loop self e arch st et E ts ?w1"
    using s by (intro pull_loop_Cons_None) simp
  have p1: "\<forall>t\<in>set ts. net E (log_request self e arch st et t) = Inr (R t)"
    using Cons.prems(1) by simp
  have p2: "\<forall>t\<in>set ts. status_code (R t) = 200 \<longrightarrow> can_open_w (fs ?w1) (log_path e arch t)"
    using Cons.prems(2) by (simp add: co)
  have p3: "distinct ts" using Cons.prems(3) by simp
  have p4: "\<forall>t\<in>set ts. CHR ''/'' \<notin> set t" using Cons.prems(4) by simp
  note ih = Cons.IH [OF p1 p2 p3 p4, unfolded lk]
  have a1: "fst (pull_loop self e arch st et E (t # ts) w) = None" unfolding eq using ih by simp
  have a2: "net_log (snd (pull_loop self e arch st et E (t # ts) w)) =
      net_log w @ map (log_request self e arch st et) (t # ts)"
    unfolding eq using ih s by simp
  have a3: "dirs (fs (snd (pull_loop self e arch st et E (t # ts) w))) = dirs (fs w)"
    "cwd (fs (snd (pull_loop self e arch st et E (t # ts) w))) = cwd (fs w)"
    "DeviceInfo_class (snd (pull_loop self e arch st et E (t # ts) w)) = DeviceInfo_class w"
    unfolding eq using ih s by simp_all
  have a4: "set (stdout w) \<subseteq> set (stdout (snd (pull_loop self e arch st et E (t # ts) w)))"
    using ih s unfolding eq by blast
  have a5: "\<forall>u\<in>set (t # ts). category_report e arch u (R u)
      \<in> set (stdout (snd (pull_loop self e arch st et E (t # ts) w)))"
    using ih s unfolding eq by auto
  have other: "lookup_path (fs w) (log_path e arch u) \<noteq> Some loc"
    if "u \<in> set ts" and "lookup_path (fs w) (log_path e arch t) = Some loc" for u loc
  proof
    assume "lookup_path (fs w) (log_path e arch u) = Some loc"
    with that(2) Cons.prems(4) that(1) have "u = t"
      by (intro lookup_log_path_inj [of u t "fs w" e arch loc]) simp_all
    with that(1) Cons.prems(3) show False by simp
  qed
  have a6: "\<forall>u\<in>set (t # ts). status_code (R u) = 200 \<longrightarrow>
      (\<forall>loc. lookup_path (fs w) (log_path e arch u) = Some loc \<longrightarrow>
         files (fs (snd (pull_loop self e arch st et E (t # ts) w))) loc =
           Some (written_text (iter_lines (R u))))"
  proof (intro ballI impI allI)
    fix u loc
    assume u: "u \<in> set (t # ts)" and st: "status_code (R u) = 200"
      and l: "lookup_path (fs w) (log_path e arch u) = Some loc"
    show "files (fs (snd (pull_loop self e arch st et E (t # ts) w))) loc =
        Some (written_text (iter_lines (R u)))"
    proof (cases "u = t")
      case True
      with l other have "\<forall>v\<in>set ts. status_code (R v) = 200 \<longrightarrow>
          lookup_path (fs w) (log_path e arch v) \<noteq> Some loc" by blast
      with ih have "files (fs ?w') loc = files (fs ?w1) loc" by blast
      also have "\<dots> = Some (written_text (iter_lines (R u)))"
        using s st l True by simp
      finally show ?thesis unfolding eq .
    next
      case False
      with u have "u \<in> set ts" by simp
      with ih st l show ?thesis unfolding eq by blast
    qed
  qed
  have a7: "\<forall>loc. (\<forall>u\<in>set (t # ts). status_code (R u) = 200 \<longrightarrow>
                lookup_path (fs w) (log_path e arch u) \<noteq> Some loc) \<longrightarrow>
      files (fs (snd (pull_loop self e arch st et E (t # ts) w))) loc = files (fs w) loc"
  proof (intro allI impI)
    fix loc
    assume h: "\<forall>u\<in>set (t # ts). status_code (R u) = 200 \<longrightarrow>
        lookup_path (fs w) (log_path e arch u) \<noteq> Some loc"
    then have "\<forall>u\<in>set ts. status_code (R u) = 200 \<longrightarrow>
        lookup_path (fs w) (log_path e arch u) \<noteq> Some loc" by simp
    with ih have "files (fs ?w') loc = files (fs ?w1) loc" by blast
    also have "\<dots> = files (fs w) loc" using s h by simp
    finally show "files (fs (snd (pull_loop self e arch st et E (t # ts) w))) loc = files (fs w) loc"
      unfolding eq .
  qed
  from a1 a2 a3 a4 a5 a6 a7 show ?case by blast
qed

lemma os_mkdir_Inr:
  "os_mkdir p fsys = Inr fsys' \<Longrightarrow>
   \<exists>loc. lookup_path fsys p = Some loc \<and> loc \<notin> dirs fsys \<and> loc \<notin> dom (files fsys) \<and>
         fsys' = fsys\<lparr>dirs := insert loc (dirs fsys)\<rparr>"
  by (auto simp: os_mkdir_def split: if_splits option.splits)

lemma create_dirs_try_effect:
  "files (snd (create_dirs_try e E fsys)) = files fsys \<and>
   cwd (snd (create_dirs_try e E fsys)) = cwd fsys \<and>
   dirs fsys \<subseteq> dirs (snd (create_dirs_try e E fsys))"
  by (auto simp: create_dirs_try_def Let_def os_path_exists_function_truth_def
      split: sum.splits if_splits dest!: os_mkdir_Inr)

lemma create_dirs_effect:
  "net_log (create_dirs self e E w) = net_log w \<and>
   DeviceInfo_class (create_dirs self e E w) = DeviceInfo_class w \<and>
   files (fs (create_dirs self e E w)) = files (fs w) \<and>
   cwd (fs (create_dirs self e E w)) = cwd (fs w) \<and>
   dirs (fs w) \<subseteq> dirs (fs (create_dirs self e E w)) \<and>
   set (stdout w) \<subseteq> set (stdout (create_dirs self e E w))"
proof -
  obtain x fsys where c: "create_dirs_try e E (fs w) = (x, fsys)"
    by (cases "create_dirs_try e E (fs w)")
  from create_dirs_try_effect [of e E "fs w"] c
  have "files fsys = files (fs w)" "cwd fsys = cwd (fs w)" "dirs (fs w) \<subseteq> dirs fsys" by simp_all
  then show ?thesis using c by (cases x) (auto simp: create_dirs_def)
qed

lemma pull_logs_unfold:
  assumes "esn di = Some e" and "archivers di = Some archs" and "py_getitem archs (PInt a) = Inr arch"
  shows "pull_logs self di a st et E w =
     pull_loop self e arch (convert_dt_to_een_time st) (convert_dt_to_een_time et) E categories
       (create_dirs self e E w)"
  using assms by (simp add: pull_logs_def Let_def)

lemma categories_facts: "distinct categories" "\<forall>t\<in>set categories. CHR ''/'' \<notin> set t"
  by (simp_all add: categories_def)

lemma pull_logs_effect:
  assumes "esn di = Some e" and "archivers di = Some archs"
    and "py_getitem archs (PInt a) = Inr arch"
    and "\<forall>t\<in>set categories.
           net E (log_request self e arch (convert_dt_to_een_time st) (convert_dt_to_een_time et) t) =
             Inr (R t)"
    and "\<forall>t\<in>set categories. status_code (R t) = 200 \<longrightarrow>
           can_open_w (fs (create_dirs self e E w)) (log_path e arch t)"
  shows "fst (pull_logs self di a st et E w) = None"
    and "net_log (snd (pull_logs self di a st et E w)) =
           net_log w @ map (log_request self e arch (convert_dt_to_een_time st)
                              (convert_dt_to_een_time et)) categories"
    and "dirs (fs (snd (pull_logs self di a st et E w))) = dirs (fs (create_dirs self e E w))"
    and "cwd (fs (snd (pull_logs self di a st et E w))) = cwd (fs w)"
    and "\<forall>t\<in>set categories.
            category_report e arch t (R t) \<in> set (stdout (snd (pull_logs self di a st et E w)))"
    and "\<forall>t\<in>set categories. status_code (R t) = 200 \<longrightarrow>
            read_file (fs (snd (pull_logs self di a st et E w))) (log_path e arch t) =
              Some (written_text (iter_lines (R t)))"
    and "\<forall>t\<in>set categories. status_code (R t) \<noteq> 200 \<longrightarrow>
            (\<forall>loc. lookup_path (fs (snd (pull_logs self di a st et E w))) (log_path e arch t) = Some loc \<longrightarrow>
               files (fs (snd (pull_logs self di a st et E w))) loc = files (fs w) loc)"
    and "\<forall>loc. (\<forall>t\<in>set categories. status_code (R t) = 200 \<longrightarrow>
                    lookup_path (fs (snd (pull_logs self di a st et E w))) (log_path e arch t) \<noteq> Some loc) \<longrightarrow>
            files (fs (snd (pull_logs self di a st et E w))) loc = files (fs w) loc"
proof -
  let ?w1 = "create_dirs self e E w"
  let ?st = "convert_dt_to_een_time st" and ?et = "convert_dt_to_een_time et"
  let ?w' = "snd (pull_loop self e arch ?st ?et E categories ?w1)"
  note u = pull_logs_unfold [OF assms(1-3)]
  note l = pull_loop_ok [OF assms(4,5) categories_facts]
  note c = create_dirs_effect [of self e E w]
  have lk: "lookup_path (fs ?w') p = lookup_path (fs ?w1) p" for p
    using l by (intro lookup_path_cong) simp_all
  have f1: "files (fs ?w1) = files (fs w)" using c by simp
  show "fst (pull_logs self di a st et E w) = None" unfolding u using l by blast
  show "net_log (snd (pull_logs self di a st et E w)) =
      net_log w @ map (log_request self e arch ?st ?et) categories"
    unfolding u using l c by simp
  show "dirs (fs (snd (pull_logs self di a st et E w))) = dirs (fs ?w1)"
    unfolding u using l by blast
  show "cwd (fs (snd (pull_logs self di a st et E w))) = cwd (fs w)"
    unfolding u using l c by simp
  show "\<forall>t\<in>set categories.
      category_report e arch t (R t) \<in> set (stdout (snd (pull_logs self di a st et E w)))"
    unfolding u using l by blast
  show "\<forall>t\<in>set categories. status_code (R t) = 200 \<longrightarrow>
      read_file (fs (snd (pull_logs self di a st et E w))) (log_path e arch t) =
        Some (written_text (iter_lines (R t)))"
    unfolding u
  proof (intro ballI impI)
    fix t assume t: "t \<in> set categories" "status_code (R t) = 200"
    with assms(5) obtain loc where loc: "lookup_path (fs ?w1) (log_path e arch t) = Some loc"
      by (auto simp: can_open_w_iff)
    with l t have "files (fs ?w') loc = Some (written_text (iter_lines (R t)))" by blast
    with loc show "read_file (fs ?w') (log_path e arch t) = Some (written_text (iter_lines (R t)))"
      by (simp add: read_file_def lk)
  qed
  have a6: "\<forall>loc. (\<forall>t\<in>set categories. status_code (R t) = 200 \<longrightarrow>
                    lookup_path (fs ?w') (log_path e arch t) \<noteq> Some loc) \<longrightarrow>
            files (fs ?w') loc = files (fs w) loc"
    using l unfolding lk f1 [symmetric] by blast
  then show "\<forall>loc. (\<forall>t\<in>set categories. status_code (R t) = 200 \<longrightarrow>
        lookup_path (fs (snd (pull_logs self di a st et E w))) (log_path e arch t) \<noteq> Some loc) \<longrightarrow>
      files (fs (snd (pull_logs self di a st et E w))) loc = files (fs w) loc"
    unfolding u .
  show "\<forall>t\<in>set categories. status_code (R t) \<noteq> 200 \<longrightarrow>
      (\<forall>loc. lookup_path (fs (snd (pull_logs self di a st et E w))) (log_path e arch t) = Some loc \<longrightarrow>
         files (fs (snd (pull_logs self di a st et E w))) loc = files (fs w) loc)"
    unfolding u
  proof (intro ballI impI allI)
    fix t loc
    assume t: "t \<in> set categories" "status_code (R t) \<noteq> 200"
      and loc: "lookup_path (fs ?w') (log_path e arch t) = Some loc"
    have "lookup_path (fs ?w') (log_path e arch u) \<noteq> Some loc"
      if "u \<in> set categories" "status_code (R u) = 200" for u
    proof
      assume "lookup_path (fs ?w') (log_path e arch u) = Some loc"
      with loc have "u = t"
        using categories_facts(2) t(1) that(1)
        by (intro lookup_log_path_inj [of u t "fs ?w'" e arch loc]) simp_all
      with t(2) that(2) show False by simp
    qed
    with a6 show "files (fs ?w') loc = files (fs w) loc" by blast
  qed
qed

lemma py_getitem_PList_out_of_range:
  "int (length xs) \<le> a \<or> a < - int (length xs) \<Longrightarrow>
   py_getitem (PList xs) (PInt a) = Inl IndexError"
  by (auto simp: py_getitem_def list_index_def Let_def)



lemma fetch_category_net_log:
  "net_log (snd (fetch_category self e arch st et E t w)) =
     net_log w @ [log_request self e arch st et t]"
  by (auto simp: fetch_category_def Let_def split: sum.splits prod.splits option.splits)

lemma pull_loop_requests:
  "\<exists>n\<le>length ts. net_log (snd (pull_loop self e arch st et E ts w)) =
      net_log w @ map (log_request self e arch st et) (take n ts)"
proof (induction ts arbitrary: w)
  case Nil
  then show ?case by simp
next
  case (Cons t ts)
  obtain x w1 where f: "fetch_category self e arch st et E t w = (x, w1)"
    by (cases "fetch_category self e arch st et E t w")
  with fetch_category_net_log [of self e arch st et E t w]
  have n1: "net_log w1 = net_log w @ [log_request self e arch st et t]" by simp
  show ?case
  proof (cases x)
    case None
    from Cons.IH [of w1] obtain n where
      n: "n \<le> length ts" "net_log (snd (pull_loop self e arch st et E ts w1)) =
          net_log w1 @ map (log_request self e arch st et) (take n ts)" by blast
    with None f n1 have "net_log (snd (pull_loop self e arch st et E (t # ts) w)) =
        net_log w @ map (log_request self e arch st et) (take (Suc n) (t # ts))" by simp
    with n(1) show ?thesis by (intro exI [of _ "Suc n"]) simp
  next
    case (Some y)
    with f n1 have "net_log (snd (pull_loop self e arch st et E (t # ts) w)) =
        net_log w @ map (log_request self e arch st et) (take 1 (t # ts))" by simp
    then show ?thesis by (intro exI [of _ 1]) simp
  qed
qed

text \<open>
  When the script is started from its own directory under a relative name, the working
  directory exists, \<^verbatim>\<open>bridge_logs\<close> is not a regular file, the device and archiver names
  hold neither a slash nor a NUL, and no directory has the name of the log file, then the
  log file can be opened once \<^verbatim>\<open>create_dirs\<close> has run.
\<close>

lemma can_open_after_create_dirs:
  assumes "os_path_dirname (script_file E) = []"
    and "cwd (fs w) \<in> dirs (fs w)"
    and "cwd (fs w) @ [''bridge_logs''] \<notin> dom (files (fs w))"
    and "CHR ''/'' \<notin> set (s @ py_str arch)" and "CHR 0x00 \<notin> set (s @ py_str arch)"
    and "t \<in> set categories"
    and "cwd (fs w) @ [''bridge_logs'', log_name (PStr s) arch t] \<notin> dirs (fs w)"
  shows "can_open_w (fs (create_dirs self (PStr s) E w)) (log_path (PStr s) arch t)"
proof -
  let ?root = "posix_join (os_path_dirname (script_file E)) ''bridge_logs''"
  let ?b = "cwd (fs w) @ [''bridge_logs'']"
  let ?n = "log_name (PStr s) arch t"
  let ?fs' = "fs (create_dirs self (PStr s) E w)"
  have root: "?root = ''bridge_logs''" by (simp add: assms(1) posix_join_def)
  have l: "lookup_path (fs w) ?root = Some ?b"
    using assms(2) by (simp add: root lookup_path_def)
  have d: "dirs ?fs' = insert ?b (dirs (fs w)) \<and> cwd ?fs' = cwd (fs w)"
  proof (cases "os_path_exists (fs w) ?root")
    case True
    with l assms(3) have "?b \<in> dirs (fs w)" by (simp add: os_path_exists_def)
    with True show ?thesis by (auto simp: create_dirs_existing)
  next
    case False
    from create_dirs_absent(1) [OF False l, of self s] show ?thesis by simp
  qed
  from assms(4-6) have sl: "CHR ''/'' \<notin> set ?n" and nul: "CHR 0x00 \<notin> set ?n"
    by (auto simp: log_name_def py_str_def categories_def)
  have "lookup_path ?fs' (log_path (PStr s) arch t) = Some (cwd (fs w) @ [''bridge_logs'', ?n])"
    unfolding log_path_name lookup_flat [OF sl nul log_name_proper]
    using d assms(2) by simp
  moreover have "cwd (fs w) @ [''bridge_logs'', ?n] \<notin> dirs ?fs'"
    using d assms(7) by simp
  ultimately show ?thesis by (simp add: can_open_w_iff)
qed

text \<open>\<^verbatim>\<open>pull_logs\<close> handles no exception: a request that raises, or a log file that cannot
  be opened, ends the loop at that category.\<close>

lemma pull_loop_request_raises:
  "net E (log_request self e arch st et t) = Inl x \<Longrightarrow>
   fst (pull_loop self e arch st et E (t # ts) w) = Some x \<and>
   fs (snd (pull_loop self e arch st et E (t # ts) w)) = fs w"
  by (simp add: fetch_category_def Let_def)

lemma pull_loop_open_fails:
  "net E (log_request self e arch st et t) = Inr r \<Longrightarrow> status_code r = 200 \<Longrightarrow>
   open_w (log_path e arch t) (fs w) = Inl x \<Longrightarrow>
   fst (pull_loop self e arch st et E (t # ts) w) = Some x \<and>
   fs (snd (pull_loop self e arch st et E (t # ts) w)) = fs w"
  by (simp add: fetch_category_def Let_def)

subsection \<open>The example run\<close>

lemma example_create_dirs:
  "fs (create_dirs example_self (PStr ''100bbc9c'') example_env example_world) =
     \<lparr>cwd = [''work''], dirs = insert [''work'', ''bridge_logs''] {[], [''work'']},
      files = Map.empty\<rparr>"
proof -
  have root: "posix_join (os_path_dirname (script_file example_env)) ''bridge_logs'' = ''bridge_logs''"
    by (simp add: example_env_def os_path_dirname_def posix_join_def)
  have l: "lookup_path (fs example_world) ''bridge_logs'' = Some [''work'', ''bridge_logs'']"
    by (simp add: lookup_path_def example_world_def example_fs_def)
  have n: "\<not> os_path_exists (fs example_world) ''bridge_logs''"
    by (simp add: os_path_exists_def l) (simp add: example_world_def example_fs_def)
  from create_dirs_absent(1) [of example_world example_env, unfolded root, OF n l]
  show ?thesis by (simp add: example_world_def example_fs_def)
qed

lemma example_net_log:
  "net example_env (log_request example_self e arch st et t) = Inr (example_log_response t)"
  by (simp add: example_env_def example_net_def log_request_def)

lemma example_can_open:
  assumes "arch = ''a1471'' \<or> arch = ''a2002''" and "t \<in> set categories"
  shows "lookup_path (fs (create_dirs example_self (PStr ''100bbc9c'') example_env example_world))
           (log_path (PStr ''100bbc9c'') (PStr arch) t) =
         Some [''work'', ''bridge_logs'', log_name (PStr ''100bbc9c'') (PStr arch) t]"
    and "can_open_w (fs (create_dirs example_self (PStr ''100bbc9c'') example_env example_world))
           (log_path (PStr ''100bbc9c'') (PStr arch) t)"
proof -
  let ?n = "log_name (PStr ''100bbc9c'') (PStr arch) t"
  from assms have s: "CHR ''/'' \<notin> set ?n" and z: "CHR 0x00 \<notin> set ?n"
    by (auto simp: log_name_def py_str_def categories_def)
  show l: "lookup_path (fs (create_dirs example_self (PStr ''100bbc9c'') example_env example_world))
           (log_path (PStr ''100bbc9c'') (PStr arch) t) = Some [''work'', ''bridge_logs'', ?n]"
    unfolding log_path_name lookup_flat [OF s z log_name_proper]
    by (simp add: example_create_dirs)
  have "[''work'', ''bridge_logs'', ?n] \<notin> insert [''work'', ''bridge_logs''] {[], [''work'']}"
    by simp
  with l show "can_open_w (fs (create_dirs example_self (PStr ''100bbc9c'') example_env example_world))
           (log_path (PStr ''100bbc9c'') (PStr arch) t)"
    by (simp add: can_open_w_iff example_create_dirs)
qed

lemma example_device_index:
  "esn example_device = Some (PStr ''100bbc9c'')"
  "archivers example_device = Some (PList [PStr ''a1471'', PStr ''a2002''])"
  "py_getitem (PList [PStr ''a1471'', PStr ''a2002'']) (PInt 0) = Inr (PStr ''a1471'')"
  "py_getitem (PList [PStr ''a1471'', PStr ''a2002'']) (PInt (- 1)) = Inr (PStr ''a2002'')"
  by (simp_all add: example_device_def py_getitem_def list_index_def)

lemma example_hyps:
  assumes "arch = ''a1471'' \<or> arch = ''a2002''"
  shows "\<forall>t\<in>set categories.
           net example_env (log_request example_self (PStr ''100bbc9c'') (PStr arch)
             (convert_dt_to_een_time st) (convert_dt_to_een_time et) t) = Inr (example_log_response t)"
    and "\<forall>t\<in>set categories. status_code (example_log_response t) = 200 \<longrightarrow>
           can_open_w (fs (create_dirs example_self (PStr ''100bbc9c'') example_env example_world))
             (log_path (PStr ''100bbc9c'') (PStr arch) t)"
  using example_can_open(2) [OF assms] by (simp_all add: example_net_log)

lemma example_statuses:
  "status_code (example_log_response ''bridge'') = 200"
  "status_code (example_log_response ''stream'') = 500"
  "status_code (example_log_response ''analog'') = 200"
  "status_code (example_log_response ''preview'') = 500"
  by (simp_all add: example_log_response_def)

text \<open>The run of the example: archiver 0, categories bridge and analog answered 200.\<close>

lemma example_run:
  defines "w' \<equiv> snd (pull_logs example_self example_device 0 example_datetime example_datetime
                        example_env example_world)"
  shows "fst (pull_logs example_self example_device 0 example_datetime example_datetime
                        example_env example_world) = None"
    and "dirs (fs w') = insert [''work'', ''bridge_logs''] {[], [''work'']}"
    and "t \<in> set categories \<Longrightarrow>
         lookup_path (fs w') (log_path (PStr ''100bbc9c'') (PStr ''a1471'') t) =
           Some [''work'', ''bridge_logs'', log_name (PStr ''100bbc9c'') (PStr ''a1471'') t]"
    and "files (fs w') [''work'', ''bridge_logs'', ''100bbc9c.a1471_bridge.log''] =
           Some (written_text [''abc'', ''it is''])"
    and "files (fs w') [''work'', ''bridge_logs'', ''100bbc9c.a1471_analog.log''] =
           Some (written_text [''abc'', ''it is''])"
    and "loc \<noteq> [''work'', ''bridge_logs'', ''100bbc9c.a1471_bridge.log''] \<Longrightarrow>
         loc \<noteq> [''work'', ''bridge_logs'', ''100bbc9c.a1471_analog.log''] \<Longrightarrow>
         files (fs w') loc = None"
proof -
  have a: "''a1471'' = ''a1471'' \<or> ''a1471'' = ''a2002''" by simp
  note h1 = example_hyps(1) [OF a, of example_datetime example_datetime]
  note h2 = example_hyps(2) [OF a]
  note e = pull_logs_effect [OF example_device_index(1,2,3) h1 h2, folded w'_def]
  show "fst (pull_logs example_self example_device 0 example_datetime example_datetime
                        example_env example_world) = None" by (rule e(1))
  show d: "dirs (fs w') = insert [''work'', ''bridge_logs''] {[], [''work'']}"
    using e(3) by (simp add: example_create_dirs)
  have c: "cwd (fs w') = [''work'']" using e(4) by (simp add: example_world_def example_fs_def)
  show l: "lookup_path (fs w') (log_path (PStr ''100bbc9c'') (PStr ''a1471'') t) =
           Some [''work'', ''bridge_logs'', log_name (PStr ''100bbc9c'') (PStr ''a1471'') t]"
    if "t \<in> set categories" for t
  proof -
    have "lookup_path (fs w') p =
        lookup_path (fs (create_dirs example_self (PStr ''100bbc9c'') example_env example_world)) p" for p
      by (rule lookup_path_cong) (simp_all add: d c example_create_dirs)
    with example_can_open(1) [of "''a1471''" t] that show ?thesis by simp
  qed
  have lb: "lookup_path (fs w') (log_path (PStr ''100bbc9c'') (PStr ''a1471'') ''bridge'') =
      Some [''work'', ''bridge_logs'', ''100bbc9c.a1471_bridge.log'']"
    using l [of "''bridge''"] by (simp add: categories_def log_name_def py_str_def)
  have la: "lookup_path (fs w') (log_path (PStr ''100bbc9c'') (PStr ''a1471'') ''analog'') =
      Some [''work'', ''bridge_logs'', ''100bbc9c.a1471_analog.log'']"
    using l [of "''analog''"] by (simp add: categories_def log_name_def py_str_def)
  from e(6) have "read_file (fs w') (log_path (PStr ''100bbc9c'') (PStr ''a1471'') ''bridge'') =
      Some (written_text (iter_lines (example_log_response ''bridge'')))"
    by (simp add: categories_def example_statuses)
  then show "files (fs w') [''work'', ''bridge_logs'', ''100bbc9c.a1471_bridge.log''] =
           Some (written_text [''abc'', ''it is''])"
    by (simp add: read_file_def lb example_log_response_def)
  from e(6) have "read_file (fs w') (log_path (PStr ''100bbc9c'') (PStr ''a1471'') ''analog'') =
      Some (written_text (iter_lines (example_log_response ''analog'')))"
    by (simp add: categories_def example_statuses)
  then show "files (fs w') [''work'', ''bridge_logs'', ''100bbc9c.a1471_analog.log''] =
           Some (written_text [''abc'', ''it is''])"
    by (simp add: read_file_def la example_log_response_def)
  show "files (fs w') loc = None"
    if "loc \<noteq> [''work'', ''bridge_logs'', ''100bbc9c.a1471_bridge.log'']"
      and "loc \<noteq> [''work'', ''bridge_logs'', ''100bbc9c.a1471_analog.log'']"
  proof -
    have "\<forall>t\<in>set categories. status_code (example_log_response t) = 200 \<longrightarrow>
        lookup_path (fs w') (log_path (PStr ''100bbc9c'') (PStr ''a1471'') t) \<noteq> Some loc"
      using that lb la by (auto simp: categories_def example_statuses)
    with e(8) have "files (fs w') loc = files (fs example_world) loc" by blast
    then show ?thesis by (simp add: example_world_def example_fs_def)
  qed
qed

lemma example_a1471: "''a1471'' = ''a1471'' \<or> ''a1471'' = ''a2002''"
  by simp

lemma example_a2002: "''a2002'' = ''a1471'' \<or> ''a2002'' = ''a2002''"
  by simp

lemma example_reports:
  "category_report (PStr ''100bbc9c'') (PStr ''a1471'') ''stream'' (example_log_response ''stream'') =
     ''  500 b'' @ [SQUOTE] @ ''oops'' @ [SQUOTE, NL]"
  "category_report (PStr ''100bbc9c'') (PStr ''a1471'') ''preview'' (example_log_response ''preview'') =
     ''  500 b'' @ [SQUOTE] @ ''oops'' @ [SQUOTE, NL]"
  "category_report (PStr ''100bbc9c'') (PStr ''a1471'') ''bridge'' (example_log_response ''bridge'') =
     ''  ./bridge_logs/100bbc9c.a1471_bridge.log 2 lines'' @ [NL]"
  by (simp_all add: category_report_def example_log_response_def bytes_repr_def repr_quote_def
      bytes_escape_def str_int_def str_nat.simps digit_char_def SQUOTE_def DQUOTE_def BACKSLASH_def
      TAB_def NL_def CR_def log_path_def posix_join_def py_str_def Let_def)

lemma example_written_text:
  "written_text [''abc'', ''it is''] =
     ''b'' @ [SQUOTE] @ ''abc'' @ [SQUOTE, NL] @ ''b'' @ [SQUOTE] @ ''it is'' @ [SQUOTE, NL]"
  by (simp add: written_text_def bytes_repr_def repr_quote_def bytes_escape_def
      SQUOTE_def DQUOTE_def BACKSLASH_def TAB_def NL_def CR_def Let_def)

subsection \<open>The claims about \<^verbatim>\<open>pull_logs\<close>\<close>

text \<open>
  C2. Per-category isolation. Let the archiver index be valid, let each of the four
  requests be answered (with the response \<open>R t\<close> for category \<open>t\<close>), and let the log file
  of every category answered 200 be one that can be opened for writing once \<^verbatim>\<open>create_dirs\<close>
  has run. Then \<^verbatim>\<open>pull_logs\<close> ends without an exception after sending the four requests
  in the fixed order; every category is reported (path and line count after a 200, status
  and body otherwise); the file of a category answered 200 holds what was written for its
  lines; the file of any other category is as it was before the call, and so is every file
  that is not the log of a category answered 200.
\<close>

theorem pull_logs_category_isolation:
  assumes "esn di = Some e" and "archivers di = Some archs"
    and "py_getitem archs (PInt a) = Inr arch"
    and "\<forall>t\<in>set categories.
           net E (log_request self e arch (convert_dt_to_een_time st) (convert_dt_to_een_time et) t) =
             Inr (R t)"
    and "\<forall>t\<in>set categories. status_code (R t) = 200 \<longrightarrow>
           can_open_w (fs (create_dirs self e E w)) (log_path e arch t)"
  shows "fst (pull_logs self di a st et E w) = None \<and>
         net_log (snd (pull_logs self di a st et E w)) =
           net_log w @ map (log_request self e arch (convert_dt_to_een_time st)
                              (convert_dt_to_een_time et)) categories \<and>
         (\<forall>t\<in>set categories.
            category_report e arch t (R t) \<in> set (stdout (snd (pull_logs self di a st et E w)))) \<and>
         (\<forall>t\<in>set categories. status_code (R t) = 200 \<longrightarrow>
            read_file (fs (snd (pull_logs self di a st et E w))) (log_path e arch t) =
              Some (written_text (iter_lines (R t)))) \<and>
         (\<forall>t\<in>set categories. status_code (R t) \<noteq> 200 \<longrightarrow>
            (\<forall>loc. lookup_path (fs (snd (pull_logs self di a st et E w))) (log_path e arch t) = Some loc \<longrightarrow>
               files (fs (snd (pull_logs self di a st et E w))) loc = files (fs w) loc)) \<and>
         (\<forall>loc. (\<forall>t\<in>set categories. status_code (R t) = 200 \<longrightarrow>
                    lookup_path (fs (snd (pull_logs self di a st et E w))) (log_path e arch t) \<noteq> Some loc) \<longrightarrow>
            files (fs (snd (pull_logs self di a st et E w))) loc = files (fs w) loc)"
  by (intro conjI) (rule pull_logs_effect [OF assms])+

text \<open>Two categories answered 200 and two answered 500: exactly two files exist
  afterwards, the failures are printed, and no request is skipped.\<close>

theorem pull_logs_category_isolation_witness:
  "status_code (example_log_response ''bridge'') = 200 \<and>
   status_code (example_log_response ''stream'') = 500 \<and>
   status_code (example_log_response ''analog'') = 200 \<and>
   status_code (example_log_response ''preview'') = 500 \<and>
   fst (pull_logs example_self example_device 0 example_datetime example_datetime
          example_env example_world) = None \<and>
   length (net_log (snd (pull_logs example_self example_device 0 example_datetime example_datetime
          example_env example_world))) = 4 \<and>
   dom (files (fs (snd (pull_logs example_self example_device 0 example_datetime example_datetime
          example_env example_world)))) =
     {[''work'', ''bridge_logs'', ''100bbc9c.a1471_bridge.log''],
      [''work'', ''bridge_logs'', ''100bbc9c.a1471_analog.log'']} \<and>
   read_file (fs (snd (pull_logs example_self example_device 0 example_datetime example_datetime
          example_env example_world))) (log_path (PStr ''100bbc9c'') (PStr ''a1471'') ''analog'') =
     Some (written_text [''abc'', ''it is'']) \<and>
   (''  500 b'' @ [SQUOTE] @ ''oops'' @ [SQUOTE, NL])
     \<in> set (stdout (snd (pull_logs example_self example_device 0 example_datetime example_datetime
          example_env example_world)))"
proof -
  let ?w' = "snd (pull_logs example_self example_device 0 example_datetime example_datetime
          example_env example_world)"
  note t = pull_logs_category_isolation [OF example_device_index(1,2,3)
      example_hyps(1) [OF example_a1471, of example_datetime example_datetime]
      example_hyps(2) [OF example_a1471]]
  have n: "net_log example_world = []" by (simp add: example_world_def)
  from t have "length (net_log ?w') = 4"
    by (simp add: categories_def n)
  moreover from t have "category_report (PStr ''100bbc9c'') (PStr ''a1471'') ''stream''
      (example_log_response ''stream'') \<in> set (stdout ?w')"
    by (simp add: categories_def)
  then have "(''  500 b'' @ [SQUOTE] @ ''oops'' @ [SQUOTE, NL]) \<in> set (stdout ?w')"
    by (simp only: example_reports)
  moreover from t have "read_file (fs ?w') (log_path (PStr ''100bbc9c'') (PStr ''a1471'') ''analog'') =
     Some (written_text (iter_lines (example_log_response ''analog'')))"
    by (simp add: categories_def example_statuses)
  then have "read_file (fs ?w') (log_path (PStr ''100bbc9c'') (PStr ''a1471'') ''analog'') =
     Some (written_text [''abc'', ''it is''])"
    by (simp add: example_log_response_def)
  moreover have "dom (files (fs ?w')) =
     {[''work'', ''bridge_logs'', ''100bbc9c.a1471_bridge.log''],
      [''work'', ''bridge_logs'', ''100bbc9c.a1471_analog.log'']}"
  proof (rule set_eqI)
    fix loc
    show "loc \<in> dom (files (fs ?w')) \<longleftrightarrow>
        loc \<in> {[''work'', ''bridge_logs'', ''100bbc9c.a1471_bridge.log''],
               [''work'', ''bridge_logs'', ''100bbc9c.a1471_analog.log'']}"
    proof (cases "loc = [''work'', ''bridge_logs'', ''100bbc9c.a1471_bridge.log''] \<or>
        loc = [''work'', ''bridge_logs'', ''100bbc9c.a1471_analog.log'']")
      case True
      with example_run(4,5) show ?thesis by auto
    next
      case False
      with example_run(6) [of loc] have "files (fs ?w') loc = None" by simp
      with False show ?thesis by (simp add: dom_def)
    qed
  qed
  moreover from t have "fst (pull_logs example_self example_device 0 example_datetime
      example_datetime example_env example_world) = None" by blast
  ultimately show ?thesis by (simp add: example_statuses)
qed

text \<open>
  C1. The lines of the response are \<^verbatim>\<open>bytes\<close>, and \<^verbatim>\<open>str(line)\<close> is their repr: for the
  lines \<^verbatim>\<open>abc\<close> and \<^verbatim>\<open>it is\<close> the file holds \<^verbatim>\<open>b'abc'\<close> and \<^verbatim>\<open>b'it is'\<close>, one per line,
  and not the lines themselves. (The number of lines is kept: \<open>written_text_newlines\<close>.)
\<close>

theorem pull_logs_writes_repr_of_lines:
  "iter_lines (example_log_response ''bridge'') = [''abc'', ''it is''] \<and>
   read_file (fs (snd (pull_logs example_self example_device 0 example_datetime example_datetime
          example_env example_world))) (log_path (PStr ''100bbc9c'') (PStr ''a1471'') ''bridge'') =
     Some (''b'' @ [SQUOTE] @ ''abc'' @ [SQUOTE, NL] @ ''b'' @ [SQUOTE] @ ''it is'' @ [SQUOTE, NL]) \<and>
   read_file (fs (snd (pull_logs example_self example_device 0 example_datetime example_datetime
          example_env example_world))) (log_path (PStr ''100bbc9c'') (PStr ''a1471'') ''bridge'') \<noteq>
     Some (''abc'' @ [NL] @ ''it is'' @ [NL])"
proof -
  let ?w' = "snd (pull_logs example_self example_device 0 example_datetime example_datetime
          example_env example_world)"
  have "lookup_path (fs ?w') (log_path (PStr ''100bbc9c'') (PStr ''a1471'') ''bridge'') =
      Some [''work'', ''bridge_logs'', ''100bbc9c.a1471_bridge.log'']"
    using example_run(3) [of "''bridge''"] by (simp add: categories_def log_name_def py_str_def)
  then have "read_file (fs ?w') (log_path (PStr ''100bbc9c'') (PStr ''a1471'') ''bridge'') =
      Some (written_text [''abc'', ''it is''])"
    by (simp add: read_file_def example_run(4))
  then show ?thesis
    by (simp add: example_written_text example_log_response_def SQUOTE_def NL_def)
qed

text \<open>
  The file of a category answered 200 is not in a directory named by the device, and no
  such directory exists after the run.
\<close>

theorem log_file_placement_counterexample:
  "status_code (example_log_response ''bridge'') = 200 \<and>
   [''work'', ''bridge_logs'', ''100bbc9c'']
     \<notin> dirs (fs (snd (pull_logs example_self example_device 0 example_datetime example_datetime
          example_env example_world))) \<and>
   files (fs (snd (pull_logs example_self example_device 0 example_datetime example_datetime
          example_env example_world)))
     [''work'', ''bridge_logs'', ''100bbc9c'', ''100bbc9c.a1471_bridge.log''] = None \<and>
   files (fs (snd (pull_logs example_self example_device 0 example_datetime example_datetime
          example_env example_world)))
     [''work'', ''bridge_logs'', ''100bbc9c.a1471_bridge.log''] = Some (written_text [''abc'', ''it is''])"
  using example_run(2,4)
    example_run(6) [of "[''work'', ''bridge_logs'', ''100bbc9c'', ''100bbc9c.a1471_bridge.log'']"]
  by (simp add: example_statuses)

text \<open>
  C4, as the code has it. Under the conditions of C2 the log of a category answered 200 is
  the file \<^verbatim>\<open>./bridge_logs/{esn}.{archiver}_{category}.log\<close>; when the two names hold no
  slash this is the file of that name directly in the directory \<^verbatim>\<open>bridge_logs\<close> of the
  working directory. \<^verbatim>\<open>create_dirs\<close> changes nothing when the directory \<^verbatim>\<open>bridge_logs\<close>
  beside the script exists, creates it (and only it) when it is absent and the way to it
  exists, and has the same effect on the file system when run twice as when run once.
\<close>

theorem log_file_placement:
  assumes "esn di = Some e" and "archivers di = Some archs"
    and "py_getitem archs (PInt a) = Inr arch"
    and "\<forall>t\<in>set categories.
           net E (log_request self e arch (convert_dt_to_een_time st) (convert_dt_to_een_time et) t) =
             Inr (R t)"
    and "\<forall>t\<in>set categories. status_code (R t) = 200 \<longrightarrow>
           can_open_w (fs (create_dirs self e E w)) (log_path e arch t)"
  shows "(\<forall>t\<in>set categories. status_code (R t) = 200 \<longrightarrow>
            log_path e arch t =
              ''./bridge_logs/'' @ py_str e @ ''.'' @ py_str arch @ ''_'' @ t @ ''.log'' \<and>
            read_file (fs (snd (pull_logs self di a st et E w))) (log_path e arch t) =
              Some (written_text (iter_lines (R t))) \<and>
            (CHR ''/'' \<notin> set (py_str e @ py_str arch) \<longrightarrow>
               files (fs (snd (pull_logs self di a st et E w)))
                 (cwd (fs w) @ [''bridge_logs'', py_str e @ ''.'' @ py_str arch @ ''_'' @ t @ ''.log'']) =
               Some (written_text (iter_lines (R t))))) \<and>
         (os_path_exists (fs w) (posix_join (os_path_dirname (script_file E)) ''bridge_logs'') \<longrightarrow>
            create_dirs self (PStr s) E w = w) \<and>
         (\<forall>loc. \<not> os_path_exists (fs w) (posix_join (os_path_dirname (script_file E)) ''bridge_logs'') \<and>
                lookup_path (fs w) (posix_join (os_path_dirname (script_file E)) ''bridge_logs'') = Some loc \<longrightarrow>
            create_dirs self (PStr s) E w = w\<lparr>fs := (fs w)\<lparr>dirs := insert loc (dirs (fs w))\<rparr>\<rparr>) \<and>
         fs (create_dirs self x E (create_dirs self x E w)) = fs (create_dirs self x E w)"
proof -
  let ?w' = "snd (pull_logs self di a st et E w)"
  note p = pull_logs_effect [OF assms]
  have place: "log_path e arch t =
              ''./bridge_logs/'' @ py_str e @ ''.'' @ py_str arch @ ''_'' @ t @ ''.log'' \<and>
            read_file (fs ?w') (log_path e arch t) = Some (written_text (iter_lines (R t))) \<and>
            (CHR ''/'' \<notin> set (py_str e @ py_str arch) \<longrightarrow>
               files (fs ?w')
                 (cwd (fs w) @ [''bridge_logs'', py_str e @ ''.'' @ py_str arch @ ''_'' @ t @ ''.log'']) =
               Some (written_text (iter_lines (R t))))"
    if t: "t \<in> set categories" "status_code (R t) = 200" for t
  proof -
    from p(6) t have r: "read_file (fs ?w') (log_path e arch t) = Some (written_text (iter_lines (R t)))"
      by blast
    then obtain loc where loc: "lookup_path (fs ?w') (log_path e arch t) = Some loc"
      "files (fs ?w') loc = Some (written_text (iter_lines (R t)))"
      by (auto simp: read_file_def split: option.splits)
    have "files (fs ?w')
        (cwd (fs w) @ [''bridge_logs'', py_str e @ ''.'' @ py_str arch @ ''_'' @ t @ ''.log'']) =
        Some (written_text (iter_lines (R t)))"
      if "CHR ''/'' \<notin> set (py_str e @ py_str arch)"
    proof -
      from that t(1) have "CHR ''/'' \<notin> set (py_str e @ py_str arch @ t)"
        using categories_facts(2) by simp
      from lookup_log_path_flat [OF loc(1) this] loc(2) show ?thesis
        by (simp add: p(4) log_name_def)
    qed
    with r show ?thesis by (simp add: log_path_name log_name_def)
  qed
  from place create_dirs_existing [of w E self s] create_dirs_absent(1) [of w E _ self s]
    create_dirs_idempotent [of self x E w]
  show ?thesis by blast
qed

theorem log_file_placement_witness:
  "files (fs (snd (pull_logs example_self example_device 0 example_datetime example_datetime
          example_env example_world)))
     [''work'', ''bridge_logs'', ''100bbc9c.a1471_analog.log''] = Some (written_text [''abc'', ''it is'']) \<and>
   dirs (fs (create_dirs example_self (PStr ''100bbc9c'') example_env example_world)) =
     insert [''work'', ''bridge_logs''] (dirs (fs example_world)) \<and>
   fs (create_dirs example_self (PStr ''100bbc9c'') example_env
         (create_dirs example_self (PStr ''100bbc9c'') example_env example_world)) =
     fs (create_dirs example_self (PStr ''100bbc9c'') example_env example_world)"
proof -
  let ?w' = "snd (pull_logs example_self example_device 0 example_datetime example_datetime
          example_env example_world)"
  note t = log_file_placement [OF example_device_index(1,2,3)
      example_hyps(1) [OF example_a1471, of example_datetime example_datetime]
      example_hyps(2) [OF example_a1471], where x = "PStr ''100bbc9c''"]
  have c: "cwd (fs example_world) = [''work'']" by (simp add: example_world_def example_fs_def)
  from t have "files (fs ?w') (cwd (fs example_world) @ [''bridge_logs'',
      py_str (PStr ''100bbc9c'') @ ''.'' @ py_str (PStr ''a1471'') @ ''_'' @ ''analog'' @ ''.log'']) =
      Some (written_text (iter_lines (example_log_response ''analog'')))"
    by (simp add: categories_def example_statuses py_str_def)
  then have "files (fs ?w') [''work'', ''bridge_logs'', ''100bbc9c.a1471_analog.log''] =
      Some (written_text [''abc'', ''it is''])"
    by (simp add: c py_str_def example_log_response_def)
  moreover from t have "fs (create_dirs example_self (PStr ''100bbc9c'') example_env
         (create_dirs example_self (PStr ''100bbc9c'') example_env example_world)) =
     fs (create_dirs example_self (PStr ''100bbc9c'') example_env example_world)" by blast
  moreover have "dirs (fs (create_dirs example_self (PStr ''100bbc9c'') example_env example_world)) =
     insert [''work'', ''bridge_logs''] (dirs (fs example_world))"
  proof -
    have "dirs (fs example_world) = {[], [''work'']}"
      by (simp add: example_world_def example_fs_def)
    then show ?thesis by (simp only: example_create_dirs filesystem.simps)
  qed
  ultimately show ?thesis by blast
qed

text \<open>
  C7, as the code has it. An index at or beyond the number of archivers, or below minus
  that number, raises \<^verbatim>\<open>IndexError\<close> at \<^verbatim>\<open>di.archivers[a]\<close>, before any request is sent.
\<close>

theorem pull_logs_index_out_of_range:
  assumes "esn di = Some e" and "archivers di = Some (PList xs)"
    and "int (length xs) \<le> a \<or> a < - int (length xs)"
  shows "fst (pull_logs self di a st et E w) = Some IndexError \<and>
         net_log (snd (pull_logs self di a st et E w)) = net_log w"
  using assms create_dirs_effect [of self e E w]
  by (simp add: pull_logs_def Let_def py_getitem_PList_out_of_range)

theorem pull_logs_index_out_of_range_witness:
  "esn example_device = Some (PStr ''100bbc9c'') \<and>
   archivers example_device = Some (PList [PStr ''a1471'', PStr ''a2002'']) \<and>
   fst (pull_logs example_self example_device 2 example_datetime example_datetime
          example_env example_world) = Some IndexError \<and>
   net_log (snd (pull_logs example_self example_device 2 example_datetime example_datetime
          example_env example_world)) = [] \<and>
   fst (pull_logs example_self example_device (- 3) example_datetime example_datetime
          example_env example_world) = Some IndexError"
proof -
  have a: "int (length [PStr ''a1471'', PStr ''a2002'']) \<le> 2 \<or>
      2 < - int (length [PStr ''a1471'', PStr ''a2002''])" by simp
  have b: "int (length [PStr ''a1471'', PStr ''a2002'']) \<le> - 3 \<or>
      - 3 < - int (length [PStr ''a1471'', PStr ''a2002''])" by simp
  from pull_logs_index_out_of_range [OF example_device_index(1,2) a,
      of example_self example_datetime example_datetime example_env example_world]
    pull_logs_index_out_of_range [OF example_device_index(1,2) b,
      of example_self example_datetime example_datetime example_env example_world]
  show ?thesis by (simp add: example_device_index example_world_def)
qed

text \<open>The index -1 is outside the positions 0 and 1 of the two archivers, yet it selects
  the last archiver and the four requests are sent.\<close>

theorem pull_logs_negative_index_counterexample:
  "\<not> (0 \<le> (- 1 :: int) \<and> (- 1 :: int) < 2) \<and>
   archivers example_device = Some (PList [PStr ''a1471'', PStr ''a2002'']) \<and>
   fst (pull_logs example_self example_device (- 1) example_datetime example_datetime
          example_env example_world) = None \<and>
   map url (net_log (snd (pull_logs example_self example_device (- 1) example_datetime
          example_datetime example_env example_world))) =
     replicate 4 ''http://a2002.eagleeyenetworks.com:28080/query/camera_logs''"
proof -
  note e = pull_logs_effect [OF example_device_index(1,2,4)
      example_hyps(1) [OF example_a2002, of example_datetime example_datetime]
      example_hyps(2) [OF example_a2002]]
  have n: "net_log example_world = []" by (simp add: example_world_def)
  have r: "replicate 4 x = [x, x, x, x]" for x :: string by (simp add: numeral_eq_Suc)
  from e(2) have "map url (net_log (snd (pull_logs example_self example_device (- 1) example_datetime
          example_datetime example_env example_world))) =
     replicate 4 ''http://a2002.eagleeyenetworks.com:28080/query/camera_logs''"
    by (simp add: n r categories_def log_request_def log_url_def py_str_def)
  with e(1) show ?thesis by (simp add: example_device_index)
qed

text \<open>
  C10. \<^verbatim>\<open>pull_logs\<close> does not depend on the session of the retriever, in particular not on
  \<^verbatim>\<open>get_device_info\<close> having closed it; every request it sends goes through
  \<^verbatim>\<open>requests.get\<close>, not through the session, and carries the two cookies \<^verbatim>\<open>auth_key\<close> and
  \<^verbatim>\<open>vbsadmin_sessionid\<close>, both set to the stored key.
\<close>

theorem pull_logs_ignores_session:
  "pull_logs (self\<lparr>session := s\<rparr>) di a st et E w = pull_logs self di a st et E w \<and>
   pull_logs (fst (snd (get_device_info self e0 E0 w0))) di a st et E w =
     pull_logs self di a st et E w \<and>
   (\<exists>rs. net_log (snd (pull_logs self di a st et E w)) = net_log w @ rs \<and>
         list_all (\<lambda>r. \<not> via_session r \<and>
            cookies r = [(''auth_key'', auth_key self), (''vbsadmin_sessionid'', auth_key self)]) rs)"
proof -
  have indep: "pull_logs (self\<lparr>session := s'\<rparr>) di a st et E w = pull_logs self di a st et E w" for s'
  proof -
    have "fetch_category (self\<lparr>session := s'\<rparr>) e arch st' et' E t w1 =
        fetch_category self e arch st' et' E t w1" for e arch st' et' t w1
      by (simp add: fetch_category_def log_request_def auth_cookies_def)
    then have loop: "pull_loop (self\<lparr>session := s'\<rparr>) e arch st' et' E ts w1 =
        pull_loop self e arch st' et' E ts w1" for e arch st' et' ts w1
      by (induction ts arbitrary: w1) (simp_all split: prod.splits option.splits)
    have cd: "create_dirs (self\<lparr>session := s'\<rparr>) e E w1 = create_dirs self e E w1" for e w1
      by (simp add: create_dirs_def)
    show ?thesis
      by (simp add: pull_logs_def Let_def cd loop split: option.splits sum.splits)
  qed
  have closed: "fst (snd (get_device_info self e0 E0 w0)) = self\<lparr>session := Session True\<rparr>"
    by (simp add: get_device_info_def Let_def)
  have reqs: "\<exists>rs. net_log (snd (pull_logs self di a st et E w)) = net_log w @ rs \<and>
         list_all (\<lambda>r. \<not> via_session r \<and>
            cookies r = [(''auth_key'', auth_key self), (''vbsadmin_sessionid'', auth_key self)]) rs"
  proof (cases "\<exists>e archs arch. esn di = Some e \<and> archivers di = Some archs \<and>
      py_getitem archs (PInt a) = Inr arch")
    case True
    then obtain e archs arch where
      d: "esn di = Some e" "archivers di = Some archs" "py_getitem archs (PInt a) = Inr arch"
      by blast
    from pull_loop_requests [of categories self e arch "convert_dt_to_een_time st"
        "convert_dt_to_een_time et" E "create_dirs self e E w"]
    obtain n where n: "net_log (snd (pull_loop self e arch (convert_dt_to_een_time st)
        (convert_dt_to_een_time et) E categories (create_dirs self e E w))) =
        net_log (create_dirs self e E w) @
        map (log_request self e arch (convert_dt_to_een_time st) (convert_dt_to_een_time et))
          (take n categories)"
      by blast
    have "list_all (\<lambda>r. \<not> via_session r \<and>
            cookies r = [(''auth_key'', auth_key self), (''vbsadmin_sessionid'', auth_key self)])
        (map (log_request self e arch (convert_dt_to_een_time st) (convert_dt_to_een_time et))
          (take n categories))"
      by (simp add: list_all_iff log_request_def auth_cookies_def)
    with n create_dirs_effect [of self e E w] show ?thesis
      unfolding pull_logs_unfold [OF d] by auto
  next
    case False
    then have "net_log (snd (pull_logs self di a st et E w)) = net_log w"
      using create_dirs_effect [of self _ E w]
      by (auto simp: pull_logs_def Let_def split: option.splits sum.splits)
    then show ?thesis by simp
  qed
  from indep closed reqs show ?thesis by simp
qed

theorem pull_logs_ignores_session_witness:
  "session (fst (snd (get_device_info example_self ''100bbc9c'' example_env example_world))) =
     Session True \<and>
   fst (pull_logs (fst (snd (get_device_info example_self ''100bbc9c'' example_env example_world)))
          example_device 0 example_datetime example_datetime example_env example_world) = None \<and>
   map via_session (net_log (snd (pull_logs
          (fst (snd (get_device_info example_self ''100bbc9c'' example_env example_world)))
          example_device 0 example_datetime example_datetime example_env example_world))) =
     [False, False, False, False]"
proof -
  from pull_logs_ignores_session [where self = example_self and di = example_device and a = 0
      and st = example_datetime and et = example_datetime and E = example_env
      and w = example_world and ?e0.0 = "''100bbc9c''" and ?E0.0 = example_env
      and ?w0.0 = example_world]
  have eq: "pull_logs (fst (snd (get_device_info example_self ''100bbc9c'' example_env example_world)))
          example_device 0 example_datetime example_datetime example_env example_world =
      pull_logs example_self example_device 0 example_datetime example_datetime
          example_env example_world" by blast
  note e = pull_logs_effect [OF example_device_index(1,2,3)
      example_hyps(1) [OF example_a1471, of example_datetime example_datetime]
      example_hyps(2) [OF example_a1471]]
  have "session (fst (snd (get_device_info example_self ''100bbc9c'' example_env example_world))) =
     Session True"
    by (simp add: get_device_info_def Let_def)
  moreover have "net_log example_world = []" by (simp add: example_world_def)
  with e(2) have "map via_session (net_log (snd (pull_logs example_self example_device 0
      example_datetime example_datetime example_env example_world))) = [False, False, False, False]"
    by (simp add: categories_def log_request_def)
  ultimately show ?thesis using e(1) by (simp add: eq)
qed

end
